theory Spec2Isabelle
  imports Main
begin

section \<open>Values, objects and the store\<close>

text \<open>
  The module \<^verbatim>\<open>aiflearn/algorithms/transformer.py\<close> works on Python objects that are
  shared by reference: a dataset, the dict held in its \<^verbatim>\<open>metadata\<close> attribute, a
  transformer instance and the dict held in its \<^verbatim>\<open>_params\<close> attribute. Several
  properties of the module speak about object identity, so objects live in an
  explicit store and values refer to them by address.

  The store is a list of objects; an address is an index into it. Allocation
  appends, so a new address is never the address of an object that already exists.
\<close>

type_synonym addr = nat

datatype val =
    VNone
  | VBool bool
  | VInt int
  | VStr string
  | VList "val list"
  | VRef addr

type_synonym pydict = "string \<rightharpoonup> val"

text \<open>
  An object is a dict, or an instance with a class name and an attribute table.
  \<^verbatim>\<open>Dataset\<close> is imported from \<^verbatim>\<open>aiflearn.datasets\<close>; the module only ever asks
  \<^verbatim>\<open>isinstance(x, Dataset)\<close> and reads and writes the attribute \<^verbatim>\<open>metadata\<close>, so an
  instance of \<^verbatim>\<open>Dataset\<close> or of one of its subclasses is an object built with
  \<open>DatasetObj\<close>. An instance of a subclass of \<^verbatim>\<open>Transformer\<close> is built with
  \<open>TransformerObj\<close>. Python allows a class to inherit from both, as in
  \<^verbatim>\<open>class Both(Transformer, Dataset)\<close>; its instances are built with \<open>BothObj\<close>: they
  have the methods of a transformer and \<^verbatim>\<open>isinstance(x, Dataset)\<close> holds for them.
  Every other instance is built with \<open>OtherObj\<close>.
\<close>

datatype obj =
    Dict pydict
  | DatasetObj string pydict
  | TransformerObj string pydict
  | BothObj string pydict
  | OtherObj string pydict

type_synonym heap = "obj list"

datatype exn =
    NotImplementedError string
  | NotFittedError string
  | AttributeError
  | TypeError
  | UserError string

text \<open>
  A call ends by returning a value or by raising; either way it leaves a store
  behind.
\<close>

type_synonym outcome = "(exn + val) \<times> heap"

type_synonym kwargs = "(string \<times> val) list"

type_synonym pymethod = "val \<Rightarrow> val list \<Rightarrow> kwargs \<Rightarrow> heap \<Rightarrow> outcome"

text \<open>
  A Python function object: the attributes \<^verbatim>\<open>__name__\<close> and \<^verbatim>\<open>__module__\<close> and what
  calling it does. The first parameter of \<open>f_call\<close> is \<^verbatim>\<open>self\<close>, the second
  \<^verbatim>\<open>*args\<close>, the third \<^verbatim>\<open>**kwargs\<close>.
\<close>

record pyfunc =
  f_name :: string
  f_module :: string
  f_call :: pymethod

definition lookup :: "heap \<Rightarrow> addr \<Rightarrow> obj option" where
  "lookup h a = (if a < length h then Some (h ! a) else None)"

definition alloc :: "heap \<Rightarrow> obj \<Rightarrow> addr \<times> heap" where
  "alloc h ob = (length h, h @ [ob])"

fun attrs_of :: "obj \<Rightarrow> pydict option" where
  "attrs_of (Dict d) = None"
| "attrs_of (DatasetObj c at) = Some at"
| "attrs_of (TransformerObj c at) = Some at"
| "attrs_of (BothObj c at) = Some at"
| "attrs_of (OtherObj c at) = Some at"

fun with_attrs :: "obj \<Rightarrow> pydict \<Rightarrow> obj" where
  "with_attrs (Dict d) at = Dict d"
| "with_attrs (DatasetObj c _) at = DatasetObj c at"
| "with_attrs (TransformerObj c _) at = TransformerObj c at"
| "with_attrs (BothObj c _) at = BothObj c at"
| "with_attrs (OtherObj c _) at = OtherObj c at"

fun class_name :: "obj \<Rightarrow> string" where
  "class_name (Dict d) = ''dict''"
| "class_name (DatasetObj c at) = c"
| "class_name (TransformerObj c at) = c"
| "class_name (BothObj c at) = c"
| "class_name (OtherObj c at) = c"

text \<open>\<^verbatim>\<open>type(v).__name__\<close>\<close>

fun type_name :: "heap \<Rightarrow> val \<Rightarrow> string" where
  "type_name h VNone = ''NoneType''"
| "type_name h (VBool b) = ''bool''"
| "type_name h (VInt i) = ''int''"
| "type_name h (VStr s) = ''str''"
| "type_name h (VList xs) = ''list''"
| "type_name h (VRef a) = (case lookup h a of Some ob \<Rightarrow> class_name ob | None \<Rightarrow> ''object'')"

text \<open>Whether the class of an object is \<^verbatim>\<open>Dataset\<close> or inherits from it.\<close>

fun is_Dataset_obj :: "obj \<Rightarrow> bool" where
  "is_Dataset_obj (DatasetObj c at) = True"
| "is_Dataset_obj (BothObj c at) = True"
| "is_Dataset_obj ob = False"

text \<open>The name of the class of an object, when the class inherits from \<^verbatim>\<open>Transformer\<close>.\<close>

fun transformer_class :: "obj \<Rightarrow> string option" where
  "transformer_class (TransformerObj c at) = Some c"
| "transformer_class (BothObj c at) = Some c"
| "transformer_class ob = None"

text \<open>\<^verbatim>\<open>isinstance(v, Dataset)\<close>\<close>

fun isinstance_Dataset :: "heap \<Rightarrow> val \<Rightarrow> bool" where
  "isinstance_Dataset h (VRef a) =
     (case lookup h a of Some ob \<Rightarrow> is_Dataset_obj ob | None \<Rightarrow> False)"
| "isinstance_Dataset h v = False"

text \<open>\<^verbatim>\<open>v.k\<close> for a data attribute \<open>k\<close>; a missing attribute raises \<^verbatim>\<open>AttributeError\<close>.\<close>

fun getattr :: "heap \<Rightarrow> val \<Rightarrow> string \<Rightarrow> exn + val" where
  "getattr h (VRef a) k =
     (case lookup h a of
        None \<Rightarrow> Inl AttributeError
      | Some ob \<Rightarrow>
          (case attrs_of ob of
             None \<Rightarrow> Inl AttributeError
           | Some at \<Rightarrow> (case at k of None \<Rightarrow> Inl AttributeError | Some x \<Rightarrow> Inr x)))"
| "getattr h v k = Inl AttributeError"

text \<open>\<^verbatim>\<open>v.k = x\<close>\<close>

fun setattr :: "heap \<Rightarrow> val \<Rightarrow> string \<Rightarrow> val \<Rightarrow> exn + heap" where
  "setattr h (VRef a) k x =
     (case lookup h a of
        None \<Rightarrow> Inl AttributeError
      | Some ob \<Rightarrow>
          (case attrs_of ob of
             None \<Rightarrow> Inl AttributeError
           | Some at \<Rightarrow> Inr (h[a := with_attrs ob (at(k \<mapsto> x))])))"
| "setattr h v k x = Inl AttributeError"

text \<open>
  \<^verbatim>\<open>v.copy()\<close> where \<open>v\<close> is meant to be a dict: a new dict object with the
  same entries (a shallow copy: the values are not copied). A value that is not a
  dict has no usable \<^verbatim>\<open>copy\<close>/\<^verbatim>\<open>update\<close> pair and raises \<^verbatim>\<open>AttributeError\<close>.
\<close>

fun dict_copy :: "heap \<Rightarrow> val \<Rightarrow> exn + (val \<times> heap)" where
  "dict_copy h (VRef m) =
     (case lookup h m of
        Some (Dict d) \<Rightarrow> (case alloc h (Dict d) of (a, h') \<Rightarrow> Inr (VRef a, h'))
      | _ \<Rightarrow> Inl AttributeError)"
| "dict_copy h v = Inl AttributeError"

text \<open>\<^verbatim>\<open>v.update({k1: x1, ...})\<close>: the dict object itself is changed.\<close>

fun dict_update :: "heap \<Rightarrow> val \<Rightarrow> (string \<times> val) list \<Rightarrow> exn + heap" where
  "dict_update h (VRef m) kvs =
     (case lookup h m of
        Some (Dict d) \<Rightarrow> Inr (h[m := Dict (fold (\<lambda>(k, x) d'. d'(k \<mapsto> x)) kvs d)])
      | _ \<Rightarrow> Inl AttributeError)"
| "dict_update h v kvs = Inl AttributeError"

text \<open>\<^verbatim>\<open>v.metadata[k]\<close>, when \<open>v.metadata\<close> is a dict that has the key.\<close>

definition metadata_entry :: "heap \<Rightarrow> val \<Rightarrow> string \<Rightarrow> val option" where
  "metadata_entry h v k =
     (case getattr h v ''metadata'' of
        Inr (VRef m) \<Rightarrow> (case lookup h m of Some (Dict d) \<Rightarrow> d k | _ \<Rightarrow> None)
      | _ \<Rightarrow> None)"

section \<open>The provenance decorator\<close>

text \<open>
  Lines 33 to 40 of the source, the part of \<^verbatim>\<open>wrapper\<close> that runs once \<^verbatim>\<open>func\<close> has
  returned \<open>new_dataset\<close> in store \<open>h1\<close>; \<open>fn\<close> is \<^verbatim>\<open>func.__name__\<close>.
  The steps are those of the source, in its order:
  \<^verbatim>\<open>new_dataset.metadata\<close> is read, copied, and the copy is assigned to the attribute;
  the attribute is read again; the three entries are evaluated
  (\<^verbatim>\<open>self._params\<close> may raise); the new dict is updated.
\<close>

definition stamp :: "string \<Rightarrow> val \<Rightarrow> val list \<Rightarrow> val \<Rightarrow> heap \<Rightarrow> outcome" where
  "stamp fn self args new_dataset h1 =
     (if isinstance_Dataset h1 new_dataset then
        (case getattr h1 new_dataset ''metadata'' of
           Inl e \<Rightarrow> (Inl e, h1)
         | Inr md \<Rightarrow>
        (case dict_copy h1 md of
           Inl e \<Rightarrow> (Inl e, h1)
         | Inr (md_copy, h2) \<Rightarrow>
        (case setattr h2 new_dataset ''metadata'' md_copy of
           Inl e \<Rightarrow> (Inl e, h2)
         | Inr h3 \<Rightarrow>
        (case getattr h3 new_dataset ''metadata'' of
           Inl e \<Rightarrow> (Inl e, h3)
         | Inr md' \<Rightarrow>
        (case getattr h3 self ''_params'' of
           Inl e \<Rightarrow> (Inl e, h3)
         | Inr params \<Rightarrow>
        (case dict_update h3 md'
                [(''transformer'', VStr (type_name h3 self @ ''.'' @ fn)),
                 (''params'', params),
                 (''previous'', VList (filter (isinstance_Dataset h3) args))] of
           Inl e \<Rightarrow> (Inl e, h3)
         | Inr h4 \<Rightarrow> (Inr new_dataset, h4)))))))
      else (Inr new_dataset, h1))"

text \<open>
  \<^verbatim>\<open>wrapper(self, *args, **kwargs)\<close>: call \<^verbatim>\<open>func\<close>; an exception of \<^verbatim>\<open>func\<close> leaves
  \<^verbatim>\<open>wrapper\<close> at once.
\<close>

definition wrapper :: "pyfunc \<Rightarrow> pymethod" where
  "wrapper func self args kwargs h =
     (case f_call func self args kwargs h of
        (Inl e, h1) \<Rightarrow> (Inl e, h1)
      | (Inr new_dataset, h1) \<Rightarrow> stamp (f_name func) self args new_dataset h1)"

text \<open>
  \<^verbatim>\<open>addmetadata(func)\<close> returns \<^verbatim>\<open>wrapper\<close>, to which \<^verbatim>\<open>functools.wraps(func)\<close> has
  copied the \<^verbatim>\<open>__name__\<close> and \<^verbatim>\<open>__module__\<close> of \<^verbatim>\<open>func\<close> (and its \<^verbatim>\<open>__doc__\<close>, which
  the record does not carry).
\<close>

definition addmetadata :: "pyfunc \<Rightarrow> pyfunc" where
  "addmetadata func =
     \<lparr>f_name = f_name func, f_module = f_module func, f_call = wrapper func\<rparr>"

section \<open>Class construction\<close>

type_synonym class_body = "string \<rightharpoonup> pyfunc"

definition dunder :: "string \<Rightarrow> bool" where
  "dunder k = (take 2 k = ''__'' \<and> take 2 (rev k) = ''__'')"

text \<open>
  Modelled from the spec: \<^verbatim>\<open>ApplyDecorator\<close> of \<^verbatim>\<open>aiflearn.decorating_metaclass\<close>,
  which is not among the sources. Section 4.2 of the specification: the base type
  is constructed through a mechanism that intercepts class body construction and
  applies the decorator to every plain-function attribute found in the class
  namespace, excluding dunder/special methods, before the class object is
  finalized; this holds for every subclass of the base contract and for the base
  contract itself. A class body is the table of the functions it defines; the
  result is the table the finished class holds.
\<close>

definition ApplyDecorator :: "(pyfunc \<Rightarrow> pyfunc) \<Rightarrow> class_body \<Rightarrow> class_body" where
  "ApplyDecorator decorator body =
     (\<lambda>k. case body k of
            None \<Rightarrow> None
          | Some f \<Rightarrow> Some (if dunder k then f else decorator f))"

text \<open>\<^verbatim>\<open>BaseClass = ApplyDecorator(addmetadata)\<close>\<close>

definition BaseClass :: "class_body \<Rightarrow> class_body" where
  "BaseClass = ApplyDecorator addmetadata"

section \<open>The Transformer base class\<close>

text \<open>
  The methods \<^verbatim>\<open>fit\<close>, \<^verbatim>\<open>predict\<close>, \<^verbatim>\<open>transform\<close>, \<^verbatim>\<open>fit_predict\<close> and
  \<^verbatim>\<open>fit_transform\<close> have the signature \<^verbatim>\<open>(self, dataset)\<close>: one argument, given by
  position or by the keyword \<^verbatim>\<open>dataset\<close>; any other call raises \<^verbatim>\<open>TypeError\<close>
  before the body runs.
\<close>

definition bind_dataset :: "val list \<Rightarrow> kwargs \<Rightarrow> exn + val" where
  "bind_dataset args kwargs =
     (case (args, kwargs) of
        ([dataset], []) \<Rightarrow> Inr dataset
      | ([], [(k, dataset)]) \<Rightarrow> if k = ''dataset'' then Inr dataset else Inl TypeError
      | _ \<Rightarrow> Inl TypeError)"

text \<open>
  \<^verbatim>\<open>__init__(self, **kwargs)\<close>: \<^verbatim>\<open>self._params = kwargs\<close>. Python builds \<^verbatim>\<open>kwargs\<close> as
  a new dict at the call; positional arguments are not accepted.
\<close>

definition Transformer_init :: pymethod where
  "Transformer_init self args kwargs h =
     (case args of
        [] \<Rightarrow>
          (case alloc h (Dict (map_of kwargs)) of
             (p, h1) \<Rightarrow>
               (case setattr h1 self ''_params'' (VRef p) of
                  Inl e \<Rightarrow> (Inl e, h1)
                | Inr h2 \<Rightarrow> (Inr VNone, h2)))
      | _ \<Rightarrow> (Inl TypeError, h))"

definition Transformer_fit :: pymethod where
  "Transformer_fit self args kwargs h =
     (case bind_dataset args kwargs of
        Inl e \<Rightarrow> (Inl e, h)
      | Inr dataset \<Rightarrow> (Inr self, h))"

definition Transformer_predict :: pymethod where
  "Transformer_predict self args kwargs h =
     (case bind_dataset args kwargs of
        Inl e \<Rightarrow> (Inl e, h)
      | Inr dataset \<Rightarrow>
          (Inl (NotImplementedError
             ('''predict' is not supported for this class. '' @
              ''Perhaps you meant 'transform' or 'fit_predict' instead?'')), h))"

definition Transformer_transform :: pymethod where
  "Transformer_transform self args kwargs h =
     (case bind_dataset args kwargs of
        Inl e \<Rightarrow> (Inl e, h)
      | Inr dataset \<Rightarrow>
          (Inl (NotImplementedError
             ('''transform' is not supported for this class.'' @
              '' Perhaps you meant 'predict' or 'fit_transform' instead?'')), h))"

text \<open>
  A program is the table of the subclasses of \<^verbatim>\<open>Transformer\<close>: for the name of a
  class, the functions that its body defines (together with those that its
  ancestors below \<^verbatim>\<open>Transformer\<close> define and it does not redefine). A class that
  defines nothing has the empty body.

  \<open>find_method base P h recv m\<close> is the attribute lookup \<^verbatim>\<open>recv.m\<close> for a method:
  the class of the receiver first, then the base class \<open>base\<close>. Both classes are
  built by the metaclass, so what is found in a body is found decorated. Only
  instances of subclasses of \<^verbatim>\<open>Transformer\<close> have methods here.
\<close>

type_synonym program = "string \<Rightarrow> class_body"

definition find_method :: "class_body \<Rightarrow> program \<Rightarrow> heap \<Rightarrow> val \<Rightarrow> string \<Rightarrow> exn + pyfunc" where
  "find_method base P h recv m =
     (case recv of
        VRef a \<Rightarrow>
          (case lookup h a of
             Some ob \<Rightarrow>
               (case transformer_class ob of
                  Some c \<Rightarrow>
                    (case BaseClass (P c) m of
                       Some f \<Rightarrow> Inr f
                     | None \<Rightarrow>
                         (case base m of Some f \<Rightarrow> Inr f | None \<Rightarrow> Inl AttributeError))
                | None \<Rightarrow> Inl AttributeError)
           | None \<Rightarrow> Inl AttributeError)
      | _ \<Rightarrow> Inl AttributeError)"

text \<open>\<^verbatim>\<open>recv.m(*args, **kwargs)\<close>\<close>

definition invoke :: "class_body \<Rightarrow> program \<Rightarrow> val \<Rightarrow> string \<Rightarrow> val list \<Rightarrow> kwargs \<Rightarrow> heap \<Rightarrow> outcome" where
  "invoke base P recv m args kwargs h =
     (case find_method base P h recv m of
        Inl e \<Rightarrow> (Inl e, h)
      | Inr f \<Rightarrow> f_call f recv args kwargs h)"

definition Transformer_core :: class_body where
  "Transformer_core =
     [''__init__'' \<mapsto> \<lparr>f_name = ''__init__'', f_module = ''aiflearn.algorithms.transformer'',
                       f_call = Transformer_init\<rparr>,
      ''fit'' \<mapsto> \<lparr>f_name = ''fit'', f_module = ''aiflearn.algorithms.transformer'',
                  f_call = Transformer_fit\<rparr>,
      ''predict'' \<mapsto> \<lparr>f_name = ''predict'', f_module = ''aiflearn.algorithms.transformer'',
                      f_call = Transformer_predict\<rparr>,
      ''transform'' \<mapsto> \<lparr>f_name = ''transform'', f_module = ''aiflearn.algorithms.transformer'',
                        f_call = Transformer_transform\<rparr>]"

text \<open>
  \<^verbatim>\<open>fit_predict\<close> is \<^verbatim>\<open>return self.fit(dataset).predict(dataset)\<close>, and likewise
  \<^verbatim>\<open>fit_transform\<close>. The two attribute lookups are for the names \<^verbatim>\<open>fit\<close> and
  \<^verbatim>\<open>predict\<close> (\<^verbatim>\<open>transform\<close>), which the base class defines in \<open>Transformer_core\<close>;
  \<open>find_method_core\<close> below shows that the finished class resolves them the same way.
\<close>

definition Transformer_fit_predict :: "program \<Rightarrow> pymethod" where
  "Transformer_fit_predict P self args kwargs h =
     (case bind_dataset args kwargs of
        Inl e \<Rightarrow> (Inl e, h)
      | Inr dataset \<Rightarrow>
          (case invoke (BaseClass Transformer_core) P self ''fit'' [dataset] [] h of
             (Inl e, h1) \<Rightarrow> (Inl e, h1)
           | (Inr fitted, h1) \<Rightarrow>
               invoke (BaseClass Transformer_core) P fitted ''predict'' [dataset] [] h1))"

definition Transformer_fit_transform :: "program \<Rightarrow> pymethod" where
  "Transformer_fit_transform P self args kwargs h =
     (case bind_dataset args kwargs of
        Inl e \<Rightarrow> (Inl e, h)
      | Inr dataset \<Rightarrow>
          (case invoke (BaseClass Transformer_core) P self ''fit'' [dataset] [] h of
             (Inl e, h1) \<Rightarrow> (Inl e, h1)
           | (Inr fitted, h1) \<Rightarrow>
               invoke (BaseClass Transformer_core) P fitted ''transform'' [dataset] [] h1))"

text \<open>The body of \<^verbatim>\<open>class Transformer(BaseClass)\<close> and the class built from it.\<close>

definition Transformer_body :: "program \<Rightarrow> class_body" where
  "Transformer_body P =
     Transformer_core
       (''fit_predict'' \<mapsto> \<lparr>f_name = ''fit_predict'', f_module = ''aiflearn.algorithms.transformer'',
                           f_call = Transformer_fit_predict P\<rparr>,
        ''fit_transform'' \<mapsto> \<lparr>f_name = ''fit_transform'', f_module = ''aiflearn.algorithms.transformer'',
                             f_call = Transformer_fit_transform P\<rparr>)"

definition Transformer :: "program \<Rightarrow> class_body" where
  "Transformer P = BaseClass (Transformer_body P)"

text \<open>A method call on an instance, as a client of the module makes it.\<close>

definition call_method :: "program \<Rightarrow> val \<Rightarrow> string \<Rightarrow> val list \<Rightarrow> kwargs \<Rightarrow> heap \<Rightarrow> outcome" where
  "call_method P = invoke (Transformer P) P"

section \<open>The store after a stamp\<close>

text \<open>
  \<open>dataset_at h a ob at\<close>: the object \<open>ob\<close> at address \<open>a\<close> of store \<open>h\<close> is a
  Dataset instance with the attributes \<open>at\<close>.

  \<open>rebound h1 a ob at d\<close> is the store that lines 34 and 35 leave when they
  succeed on that dataset in store \<open>h1\<close>: one new dict \<open>d\<close> at the first free
  address, and the attribute \<^verbatim>\<open>metadata\<close> of the dataset bound to it. Nothing else
  differs from \<open>h1\<close>.
\<close>

definition dataset_at :: "heap \<Rightarrow> addr \<Rightarrow> obj \<Rightarrow> pydict \<Rightarrow> bool" where
  "dataset_at h a ob at \<longleftrightarrow>
     lookup h a = Some ob \<and> is_Dataset_obj ob \<and> attrs_of ob = Some at"

definition rebound :: "heap \<Rightarrow> addr \<Rightarrow> obj \<Rightarrow> pydict \<Rightarrow> pydict \<Rightarrow> heap" where
  "rebound h1 a ob at d =
     (h1 @ [Dict d])[a := with_attrs ob (at(''metadata'' \<mapsto> VRef (length h1)))]"

section \<open>A small program to run the definitions on\<close>

text \<open>
  A transformer of class \<^verbatim>\<open>Reweighing\<close> at address 0 with its parameter dict at
  address 1, and a dataset at address 2 with its metadata dict at address 3.
\<close>

definition ex_heap :: heap where
  "ex_heap =
     [TransformerObj ''Reweighing'' [''_params'' \<mapsto> VRef 1],
      Dict [''seed'' \<mapsto> VInt 7],
      DatasetObj ''Dataset'' [''metadata'' \<mapsto> VRef 3],
      Dict [''source'' \<mapsto> VStr ''raw'']]"

text \<open>
  \<^verbatim>\<open>def transform(self, dataset, **kwargs): return copy.copy(dataset)\<close>: a new
  dataset object that shares every attribute value, the metadata dict included,
  with its argument. Keyword arguments are accepted and ignored, here and in the
  functions below.
\<close>

definition ex_transform :: pyfunc where
  "ex_transform =
     \<lparr>f_name = ''transform'', f_module = ''example'',
      f_call = (\<lambda>self args kwargs h.
        case args of
          [VRef d] \<Rightarrow>
            (case lookup h d of
               Some ob \<Rightarrow> (Inr (VRef (length h)), h @ [ob])
             | None \<Rightarrow> (Inl TypeError, h))
        | _ \<Rightarrow> (Inl TypeError, h))\<rparr>"

text \<open>\<^verbatim>\<open>def relabel(self, dataset, threshold, **kwargs): return dataset\<close>\<close>

definition ex_relabel :: pyfunc where
  "ex_relabel =
     \<lparr>f_name = ''relabel'', f_module = ''example'',
      f_call = (\<lambda>self args kwargs h.
        case args of
          [dataset, threshold] \<Rightarrow> (Inr dataset, h)
        | _ \<Rightarrow> (Inl TypeError, h))\<rparr>"

text \<open>\<^verbatim>\<open>def score(self, dataset, **kwargs): return 1\<close>\<close>

definition ex_score :: pyfunc where
  "ex_score =
     \<lparr>f_name = ''score'', f_module = ''example'',
      f_call = (\<lambda>self args kwargs h.
        case args of
          [dataset] \<Rightarrow> (Inr (VInt 1), h)
        | _ \<Rightarrow> (Inl TypeError, h))\<rparr>"

text \<open>
  \<^verbatim>\<open>def fit(self, dataset, **kwargs): self.fitted = True; return self\<close> and
  \<^verbatim>\<open>def predict(self, dataset, **kwargs): return copy.copy(dataset)\<close>
\<close>

definition ex_fit :: pyfunc where
  "ex_fit =
     \<lparr>f_name = ''fit'', f_module = ''example'',
      f_call = (\<lambda>self args kwargs h.
        case args of
          [dataset] \<Rightarrow>
            (case setattr h self ''fitted'' (VBool True) of
               Inl e \<Rightarrow> (Inl e, h)
             | Inr h' \<Rightarrow> (Inr self, h'))
        | _ \<Rightarrow> (Inl TypeError, h))\<rparr>"

definition ex_predict :: pyfunc where
  "ex_predict = ex_transform\<lparr>f_name := ''predict''\<rparr>"

text \<open>
  The class \<^verbatim>\<open>Reweighing\<close> defines \<^verbatim>\<open>fit\<close>, \<^verbatim>\<open>predict\<close> and \<^verbatim>\<open>transform\<close>; every other
  class defines nothing of its own.
\<close>

definition ex_program :: program where
  "ex_program c =
     (if c = ''Reweighing''
      then [''fit'' \<mapsto> ex_fit, ''predict'' \<mapsto> ex_predict, ''transform'' \<mapsto> ex_transform]
      else Map.empty)"

text \<open>
  A store before construction: a new \<^verbatim>\<open>Reweighing\<close> instance without attributes
  at address 0, a dataset at address 1 and its metadata dict at address 2.
\<close>

definition ex_new :: heap where
  "ex_new =
     [TransformerObj ''Reweighing'' Map.empty,
      DatasetObj ''Dataset'' [''metadata'' \<mapsto> VRef 2],
      Dict Map.empty]"

text \<open>
  A store with an instance of a class \<^verbatim>\<open>Plain\<close> that defines no method of its own,
  and a dataset.
\<close>

definition ex_plain :: heap where
  "ex_plain =
     [TransformerObj ''Plain'' Map.empty,
      DatasetObj ''Dataset'' [''metadata'' \<mapsto> VRef 2],
      Dict Map.empty]"

text \<open>
  A store with an instance of \<^verbatim>\<open>class Both(Transformer, Dataset)\<close> at address 0,
  which defines no method of its own, its metadata dict at address 1 and its
  parameter dict at address 2, and a dataset at address 3 with its metadata dict at
  address 4.
\<close>

definition ex_both :: heap where
  "ex_both =
     [BothObj ''Both'' [''metadata'' \<mapsto> VRef 1, ''_params'' \<mapsto> VRef 2],
      Dict Map.empty,
      Dict Map.empty,
      DatasetObj ''Dataset'' [''metadata'' \<mapsto> VRef 4],
      Dict Map.empty]"

section \<open>Facts about the store\<close>

lemma lookup_append: "lookup (h @ [ob]) a = (if a = length h then Some ob else lookup h a)"
  by (auto simp: lookup_def nth_append)

lemma lookup_update:
  "lookup (h[a := ob]) b = (if b = a \<and> a < length h then Some ob else lookup h b)"
  by (auto simp: lookup_def)

lemma lookup_Some_lt: "lookup h a = Some ob \<Longrightarrow> a < length h"
  by (auto simp: lookup_def split: if_splits)

lemma lookup_length: "lookup h (length h) = None"
  by (simp add: lookup_def)

lemma attrs_of_with_attrs: "attrs_of ob = Some at \<Longrightarrow> attrs_of (with_attrs ob at') = Some at'"
  by (cases ob) auto

lemma is_Dataset_with_attrs [simp]: "is_Dataset_obj (with_attrs ob at') = is_Dataset_obj ob"
  by (cases ob) auto

lemma class_name_with_attrs [simp]: "class_name (with_attrs ob at') = class_name ob"
  by (cases ob) auto

lemma transformer_class_with_attrs [simp]:
  "transformer_class (with_attrs ob at') = transformer_class ob"
  by (cases ob) auto

lemma is_Dataset_attrs: "is_Dataset_obj ob \<Longrightarrow> \<exists>at. attrs_of ob = Some at"
  by (cases ob) auto

lemma dataset_atD:
  assumes "dataset_at h a ob at"
  shows "lookup h a = Some ob" and "is_Dataset_obj ob" and "attrs_of ob = Some at"
    and "a < length h" and "isinstance_Dataset h (VRef a)"
    and "getattr h (VRef a) k = (case at k of None \<Rightarrow> Inl AttributeError | Some x \<Rightarrow> Inr x)"
  using assms by (auto simp: dataset_at_def dest: lookup_Some_lt)

lemma dataset_at_not_Dict: "dataset_at h a ob at \<Longrightarrow> lookup h m = Some (Dict d) \<Longrightarrow> m \<noteq> a"
  by (auto simp: dataset_at_def)

lemma isinstance_DatasetE:
  assumes "isinstance_Dataset h v"
  obtains a ob at where "v = VRef a" "dataset_at h a ob at"
proof (cases v)
  case (VRef a)
  with assms obtain ob where ob: "lookup h a = Some ob" and d: "is_Dataset_obj ob"
    by (auto split: option.splits)
  from d obtain at where "attrs_of ob = Some at"
    using is_Dataset_attrs by blast
  with ob d have "dataset_at h a ob at" by (simp add: dataset_at_def)
  with VRef show ?thesis by (rule that)
qed (use assms in simp_all)

lemma lookup_rebound:
  "dataset_at h1 a ob at \<Longrightarrow>
   lookup (rebound h1 a ob at d) b =
     (if b = a then Some (with_attrs ob (at(''metadata'' \<mapsto> VRef (length h1))))
      else if b = length h1 then Some (Dict d) else lookup h1 b)"
  by (auto simp: rebound_def lookup_update lookup_append dest: dataset_atD(4))

lemma type_name_rebound:
  "dataset_at h1 a ob at \<Longrightarrow>
   type_name (rebound h1 a ob at d) v = type_name (rebound h1 a ob at d') v"
  by (cases v) (simp_all add: lookup_rebound)

lemma isinstance_rebound:
  assumes "dataset_at h1 a ob at"
  shows "isinstance_Dataset (rebound h1 a ob at d) v = isinstance_Dataset h1 v"
proof (cases v)
  case (VRef b)
  with assms dataset_atD(1,2) [OF assms] show ?thesis
    by (simp add: lookup_rebound lookup_length)
qed simp_all

lemma getattr_rebound:
  assumes "dataset_at h1 a ob at" and "k \<noteq> ''metadata''"
  shows "getattr (rebound h1 a ob at d) v k = getattr h1 v k"
proof (cases v)
  case (VRef b)
  with assms dataset_atD(1,3) [OF assms(1)] show ?thesis
    by (simp add: lookup_rebound lookup_length attrs_of_with_attrs)
qed simp_all

lemma getattr_rebound_metadata:
  assumes "dataset_at h1 a ob at"
  shows "getattr (rebound h1 a ob at d) (VRef a) ''metadata'' = Inr (VRef (length h1))"
  using assms dataset_atD(3) [OF assms] by (simp add: lookup_rebound attrs_of_with_attrs)

lemma rebound_again:
  "dataset_at h1 a ob at \<Longrightarrow>
   (rebound h1 a ob at d)[length h1 := Dict d'] = rebound h1 a ob at d'"
  by (auto simp: rebound_def list_update_swap dest!: dataset_atD(4))

section \<open>What the decorator does to a returned dataset\<close>

text \<open>
  When the returned object is a dataset whose \<^verbatim>\<open>metadata\<close> is a dict, the copy and
  the rebinding happen first; reading \<^verbatim>\<open>self._params\<close> comes after them, so its
  failure leaves the rebinding in place.
\<close>

lemma stamp_Dataset:
  assumes a: "dataset_at h1 a ob at"
    and md: "at ''metadata'' = Some (VRef m)"
    and d: "lookup h1 m = Some (Dict d)"
  shows "stamp fn self args (VRef a) h1 =
    (case getattr h1 self ''_params'' of
       Inl e \<Rightarrow> (Inl e, rebound h1 a ob at d)
     | Inr params \<Rightarrow>
         (Inr (VRef a),
          rebound h1 a ob at
            (d(''transformer'' \<mapsto> VStr (type_name (rebound h1 a ob at d) self @ ''.'' @ fn),
               ''params'' \<mapsto> params,
               ''previous'' \<mapsto> VList (filter (isinstance_Dataset h1) args)))))"
proof -
  have h2: "dict_copy h1 (VRef m) = Inr (VRef (length h1), h1 @ [Dict d])"
    using d by (simp add: alloc_def)
  have h3: "setattr (h1 @ [Dict d]) (VRef a) ''metadata'' (VRef (length h1)) =
      Inr (rebound h1 a ob at d)"
    using dataset_atD(1,3,4) [OF a] by (auto simp: lookup_append rebound_def)
  have upd: "dict_update (rebound h1 a ob at d) (VRef (length h1)) kvs =
      Inr (rebound h1 a ob at (fold (\<lambda>(k, x) d'. d'(k \<mapsto> x)) kvs d))" for kvs
    using a dataset_atD(4) [OF a] by (auto simp: lookup_rebound rebound_again)
  have iso: "isinstance_Dataset (rebound h1 a ob at d) = isinstance_Dataset h1"
    using a by (auto simp: isinstance_rebound)
  have isD: "isinstance_Dataset h1 (VRef a)"
    using a by (rule dataset_atD(5))
  have g1: "getattr h1 (VRef a) ''metadata'' = Inr (VRef m)"
    using md by (simp add: dataset_atD(6) [OF a] del: getattr.simps)
  note g3 = getattr_rebound_metadata [OF a, of d]
  have g4: "getattr (rebound h1 a ob at d) self ''_params'' = getattr h1 self ''_params''"
    using a by (simp add: getattr_rebound)
  show ?thesis
    unfolding stamp_def
    by (simp add: isD g1 h2 h3 g3 g4 upd iso split: sum.splits
        del: getattr.simps dict_copy.simps setattr.simps dict_update.simps
          isinstance_Dataset.simps)
qed

text \<open>
  A dataset whose \<^verbatim>\<open>metadata\<close> is missing or is not a dict makes line 34 raise, with
  the store as \<^verbatim>\<open>func\<close> left it.
\<close>

lemma stamp_cases:
  assumes "isinstance_Dataset h1 R"
  obtains
    (ok) a ob at m d where "R = VRef a" "dataset_at h1 a ob at"
         "at ''metadata'' = Some (VRef m)" "lookup h1 m = Some (Dict d)"
  | (bad) "stamp fn self args R h1 = (Inl AttributeError, h1)"
proof -
  from assms obtain a ob at where R: "R = VRef a" and a: "dataset_at h1 a ob at"
    by (rule isinstance_DatasetE)
  note g = dataset_atD(6) [OF a, of "''metadata''"]
  show ?thesis
  proof (cases "at ''metadata''")
    case None
    with R assms g have "stamp fn self args R h1 = (Inl AttributeError, h1)"
      by (simp add: stamp_def del: getattr.simps isinstance_Dataset.simps)
    then show ?thesis by (rule bad)
  next
    case (Some md)
    show ?thesis
    proof (cases "\<exists>m d. md = VRef m \<and> lookup h1 m = Some (Dict d)")
      case True
      with R a Some show ?thesis by (auto intro: ok)
    next
      case False
      then have "dict_copy h1 md = Inl AttributeError"
        by (cases md) (auto split: option.splits obj.splits)
      with R assms g Some have "stamp fn self args R h1 = (Inl AttributeError, h1)"
        by (simp add: stamp_def del: getattr.simps isinstance_Dataset.simps dict_copy.simps)
      then show ?thesis by (rule bad)
    qed
  qed
qed

lemma stamp_not_Dataset: "\<not> isinstance_Dataset h1 R \<Longrightarrow> stamp fn self args R h1 = (Inr R, h1)"
  by (simp add: stamp_def)

text \<open>Everything the wrapper's successful return on a dataset tells.\<close>

lemma stamp_returns:
  assumes ret: "stamp fn self args R h1 = (Inr R', h')" and ds: "isinstance_Dataset h1 R"
  obtains a ob at m d p d' where
    "R = VRef a" "R' = R" "dataset_at h1 a ob at"
    "at ''metadata'' = Some (VRef m)" "lookup h1 m = Some (Dict d)"
    "getattr h1 self ''_params'' = Inr p"
    "h' = rebound h1 a ob at d'"
    "d' = d(''transformer'' \<mapsto> VStr (type_name h' self @ ''.'' @ fn),
            ''params'' \<mapsto> p,
            ''previous'' \<mapsto> VList (filter (isinstance_Dataset h') args))"
proof -
  from ds show ?thesis
  proof (cases rule: stamp_cases [where fn = fn and self = self and args = args])
    case (ok a ob at m d)
    note st = stamp_Dataset [OF ok(2,3,4), of fn self args]
    from ret ok(1) st obtain p where p: "getattr h1 self ''_params'' = Inr p"
      by (cases "getattr h1 self ''_params''") auto
    let ?d' = "d(''transformer'' \<mapsto> VStr (type_name (rebound h1 a ob at d) self @ ''.'' @ fn),
               ''params'' \<mapsto> p,
               ''previous'' \<mapsto> VList (filter (isinstance_Dataset h1) args))"
    from ret ok(1) st p have R': "R' = R" and h': "h' = rebound h1 a ob at ?d'"
      by auto
    have tn: "type_name (rebound h1 a ob at d) self = type_name h' self"
      unfolding h' by (rule type_name_rebound [OF ok(2)])
    have iso: "isinstance_Dataset h1 = isinstance_Dataset h'"
      unfolding h' using ok(2) by (auto simp: isinstance_rebound)
    show ?thesis
      by (rule that [OF ok(1) R' ok(2,3,4) p h']) (simp add: tn iso)
  next
    case bad
    with ret show ?thesis by simp
  qed
qed

lemma stamp_isinstance:
  assumes "stamp fn self args R h1 = (Inr R', h')"
  shows "R' = R" "isinstance_Dataset h' R = isinstance_Dataset h1 R"
proof -
  show "R' = R" 
  proof (cases "isinstance_Dataset h1 R")
    case True
    from assms True show ?thesis by (rule stamp_returns)
  next
    case False
    with assms show ?thesis by (simp add: stamp_not_Dataset)
  qed
  show "isinstance_Dataset h' R = isinstance_Dataset h1 R"
  proof (cases "isinstance_Dataset h1 R")
    case True
    from assms True show ?thesis 
    proof (rule stamp_returns)
      fix a ob at d'
      assume "dataset_at h1 a ob at" "h' = rebound h1 a ob at d'"
      then show ?thesis by (simp add: isinstance_rebound)
    qed
  next
    case False
    with assms show ?thesis by (simp add: stamp_not_Dataset)
  qed
qed

lemma wrapper_returns:
  assumes "f_call (addmetadata func) self args kwargs h = (Inr R, h')"
  obtains h1 where "f_call func self args kwargs h = (Inr R, h1)"
    "stamp (f_name func) self args R h1 = (Inr R, h')"
    "isinstance_Dataset h1 R = isinstance_Dataset h' R"
proof -
  from assms obtain r h1 where f: "f_call func self args kwargs h = (Inr r, h1)"
    and st: "stamp (f_name func) self args r h1 = (Inr R, h')"
    by (cases "f_call func self args kwargs h")
       (auto simp: addmetadata_def wrapper_def split: sum.splits)
  from st have "R = r" "isinstance_Dataset h' r = isinstance_Dataset h1 r"
    by (rule stamp_isinstance)+
  with f st that show ?thesis by simp
qed

lemma metadata_entry_rebound:
  "dataset_at h1 a ob at \<Longrightarrow>
   metadata_entry (rebound h1 a ob at d) (VRef a) k = d k"
  by (auto simp: metadata_entry_def lookup_rebound getattr_rebound_metadata
      simp del: getattr.simps dest: dataset_atD(4))

lemma stamp_frame:
  assumes st: "stamp fn self args R h1 = (r', h')" and dict: "lookup h1 m = Some (Dict d)"
  shows "lookup h' m = Some (Dict d)"
proof (cases "isinstance_Dataset h1 R")
  case False
  with st dict show ?thesis by (simp add: stamp_not_Dataset)
next
  case True
  then show ?thesis
  proof (cases rule: stamp_cases [where fn = fn and self = self and args = args])
    case (ok a ob at m0 d0)
    from dict have m: "m \<noteq> length h1" by (auto dest: lookup_Some_lt)
    from ok(2) dict have ma: "m \<noteq> a" by (rule dataset_at_not_Dict)
    from st ok(1) stamp_Dataset [OF ok(2,3,4), of fn self args]
    obtain d' where "h' = rebound h1 a ob at d'"
      by (cases "getattr h1 self ''_params''") auto
    with ok(2) m ma dict show ?thesis by (simp add: lookup_rebound)
  next
    case bad
    with st dict show ?thesis by simp
  qed
qed

lemma stamp_Dataset_facts:
  assumes st: "stamp fn self args R h1 = (Inr R', h')" and ds: "isinstance_Dataset h1 R"
  shows "getattr h' R ''metadata'' = Inr (VRef (length h1))"
    and "getattr h' self ''_params'' = getattr h1 self ''_params''"
    and "\<exists>p. getattr h1 self ''_params'' = Inr p \<and> metadata_entry h' R ''params'' = Some p"
    and "metadata_entry h' R ''transformer'' = Some (VStr (type_name h' self @ ''.'' @ fn))"
    and "metadata_entry h' R ''previous'' = Some (VList (filter (isinstance_Dataset h') args))"
    and "k \<notin> {''transformer'', ''params'', ''previous''} \<Longrightarrow>
           metadata_entry h' R k = metadata_entry h1 R k"
    and "isinstance_Dataset h' = isinstance_Dataset h1"
proof -
  from st ds obtain a ob at m d p d' where R: "R = VRef a"
    and a: "dataset_at h1 a ob at"
    and md: "at ''metadata'' = Some (VRef m)" and d: "lookup h1 m = Some (Dict d)"
    and p: "getattr h1 self ''_params'' = Inr p"
    and h': "h' = rebound h1 a ob at d'"
    and d': "d' = d(''transformer'' \<mapsto> VStr (type_name h' self @ ''.'' @ fn),
            ''params'' \<mapsto> p,
            ''previous'' \<mapsto> VList (filter (isinstance_Dataset h') args))"
    by (rule stamp_returns)
  have e: "metadata_entry h' R k = d' k" for k
    unfolding R by (subst h') (rule metadata_entry_rebound [OF a])
  show "getattr h' R ''metadata'' = Inr (VRef (length h1))"
    unfolding R h' by (rule getattr_rebound_metadata [OF a])
  show g: "getattr h' self ''_params'' = getattr h1 self ''_params''"
    unfolding h' using a by (simp add: getattr_rebound)
  show "\<exists>p. getattr h1 self ''_params'' = Inr p \<and> metadata_entry h' R ''params'' = Some p"
    using p e [of "''params''"] by (simp add: d')
  show "metadata_entry h' R ''transformer'' = Some (VStr (type_name h' self @ ''.'' @ fn))"
    using e [of "''transformer''"] by (simp add: d')
  show "metadata_entry h' R ''previous'' = Some (VList (filter (isinstance_Dataset h') args))"
    using e [of "''previous''"] by (simp add: d')
  have old: "metadata_entry h1 R k = d k" for k
    unfolding R using md d
    by (simp add: metadata_entry_def dataset_atD(6) [OF a] del: getattr.simps)
  show "metadata_entry h' R k = metadata_entry h1 R k"
    if "k \<notin> {''transformer'', ''params'', ''previous''}"
    using that e [of k] old [of k] by (simp add: d')
  show "isinstance_Dataset h' = isinstance_Dataset h1"
    unfolding h' using a by (auto simp: isinstance_rebound)
qed

lemma getattr_live:
  assumes "getattr h v k = Inr x"
  obtains b ob where "v = VRef b" "lookup h b = Some ob"
  using assms by (cases v) (auto split: option.splits)

lemma type_name_stamp:
  assumes st: "stamp fn self args R h1 = (Inr R', h')"
    and live: "getattr h1 self k = Inr x"
  shows "type_name h' self = type_name h1 self"
proof (cases "isinstance_Dataset h1 R")
  case False
  with st show ?thesis by (simp add: stamp_not_Dataset)
next
  case True
  with st obtain a ob at d' where a: "dataset_at h1 a ob at"
    and h': "h' = rebound h1 a ob at d'"
    by (rule stamp_returns)
  from live obtain b ob where "self = VRef b" "lookup h1 b = Some ob"
    by (rule getattr_live)
  with a dataset_atD(1) [OF a] show ?thesis
    unfolding h' by (auto simp: lookup_rebound dest: lookup_Some_lt)
qed

text \<open>The constructor, when it returns.\<close>

lemma Transformer_init_returns:
  assumes "Transformer_init self iargs kw h0 = (Inr v, hc)"
  shows "getattr hc self ''_params'' = Inr (VRef (length h0))"
    and "lookup hc (length h0) = Some (Dict (map_of kw))"
    and "iargs = []" and "v = VNone"
proof -
  from assms show ia: "iargs = []"
    by (cases iargs) (simp_all add: Transformer_init_def)
  let ?h1 = "h0 @ [Dict (map_of kw)]"
  from assms ia have s: "setattr ?h1 self ''_params'' (VRef (length h0)) = Inr hc" and v: "v = VNone"
    by (auto simp: Transformer_init_def alloc_def split: sum.splits)
  show "v = VNone" by (rule v)
  from s obtain b ob at where self: "self = VRef b" and b: "lookup ?h1 b = Some ob"
    and at: "attrs_of ob = Some at"
    and hc: "hc = ?h1[b := with_attrs ob (at(''_params'' \<mapsto> VRef (length h0)))]"
    by (cases self) (auto split: option.splits)
  from b at have bn: "b \<noteq> length h0"
    by (auto simp: lookup_append)
  from b have bl: "b < length ?h1" by (rule lookup_Some_lt)
  from at have at': "attrs_of (with_attrs ob at') = Some at'" for at'
    by (cases ob) auto
  show "getattr hc self ''_params'' = Inr (VRef (length h0))"
    unfolding self hc using bl by (simp add: lookup_update at')
  show "lookup hc (length h0) = Some (Dict (map_of kw))"
    unfolding hc using bn by (simp add: lookup_update lookup_append)
qed

section \<open>Method lookup\<close>

lemma dunder_names [simp]:
  "\<not> dunder ''fit''" "\<not> dunder ''predict''" "\<not> dunder ''transform''"
  "\<not> dunder ''fit_predict''" "\<not> dunder ''fit_transform''" "dunder ''__init__''"
  by (simp_all add: dunder_def)

lemma find_method_instance:
  assumes "lookup h a = Some ob" and "transformer_class ob = Some c"
  shows "find_method base P h (VRef a) m =
    (case P c m of
       Some f \<Rightarrow> Inr (if dunder m then f else addmetadata f)
     | None \<Rightarrow> (case base m of Some f \<Rightarrow> Inr f | None \<Rightarrow> Inl AttributeError))"
  using assms
  by (simp add: find_method_def BaseClass_def ApplyDecorator_def split: option.splits)

lemma Transformer_core_names:
  "m \<noteq> ''fit_predict'' \<Longrightarrow> m \<noteq> ''fit_transform'' \<Longrightarrow>
   Transformer P m = BaseClass Transformer_core m"
  by (simp add: Transformer_def Transformer_body_def BaseClass_def ApplyDecorator_def)

lemma find_method_core:
  assumes "m \<noteq> ''fit_predict''" and "m \<noteq> ''fit_transform''"
  shows "find_method (Transformer P) P h recv m = find_method (BaseClass Transformer_core) P h recv m"
  unfolding find_method_def by (simp only: Transformer_core_names [OF assms])

lemma call_method_core:
  assumes "m \<noteq> ''fit_predict''" and "m \<noteq> ''fit_transform''"
  shows "call_method P recv m args kwargs h = invoke (BaseClass Transformer_core) P recv m args kwargs h"
  using assms by (simp add: call_method_def invoke_def find_method_core)

lemma Transformer_fit_entry:
  "Transformer P ''fit'' =
     Some (addmetadata \<lparr>f_name = ''fit'', f_module = ''aiflearn.algorithms.transformer'',
                        f_call = Transformer_fit\<rparr>)"
  by (simp add: Transformer_def Transformer_body_def Transformer_core_def BaseClass_def ApplyDecorator_def)

lemma Transformer_predict_entry:
  "Transformer P ''predict'' =
     Some (addmetadata \<lparr>f_name = ''predict'', f_module = ''aiflearn.algorithms.transformer'',
                        f_call = Transformer_predict\<rparr>)"
  by (simp add: Transformer_def Transformer_body_def Transformer_core_def BaseClass_def ApplyDecorator_def)

lemma Transformer_transform_entry:
  "Transformer P ''transform'' =
     Some (addmetadata \<lparr>f_name = ''transform'', f_module = ''aiflearn.algorithms.transformer'',
                        f_call = Transformer_transform\<rparr>)"
  by (simp add: Transformer_def Transformer_body_def Transformer_core_def BaseClass_def ApplyDecorator_def)

lemma Transformer_fit_predict_entry:
  "Transformer P ''fit_predict'' =
     Some (addmetadata \<lparr>f_name = ''fit_predict'', f_module = ''aiflearn.algorithms.transformer'',
                        f_call = Transformer_fit_predict P\<rparr>)"
  by (simp add: Transformer_def Transformer_body_def Transformer_core_def BaseClass_def ApplyDecorator_def)

lemma Transformer_fit_transform_entry:
  "Transformer P ''fit_transform'' =
     Some (addmetadata \<lparr>f_name = ''fit_transform'', f_module = ''aiflearn.algorithms.transformer'',
                        f_call = Transformer_fit_transform P\<rparr>)"
  by (simp add: Transformer_def Transformer_body_def Transformer_core_def BaseClass_def ApplyDecorator_def)

lemma call_inherited:
  assumes "lookup h a = Some ob" and "transformer_class ob = Some c" and "P c m = None"
    and "Transformer P m = Some f"
  shows "call_method P (VRef a) m args kwargs h = f_call f (VRef a) args kwargs h"
  using assms by (simp add: call_method_def invoke_def find_method_instance)

lemma wrapper_raises:
  "f_call func self args kwargs h = (Inl e, h1) \<Longrightarrow>
   f_call (addmetadata func) self args kwargs h = (Inl e, h1)"
  by (simp add: addmetadata_def wrapper_def)

lemma nested_outcome:
  "(case (case x of (Inl e, h1) \<Rightarrow> (Inl e, h1) | (Inr v, h1) \<Rightarrow> g v h1) of
      (Inl e, h2) \<Rightarrow> (Inl e, h2)
    | (Inr R, h2) \<Rightarrow> k R h2) =
   (case x of
      (Inl e, h1) \<Rightarrow> (Inl e, h1)
    | (Inr v, h1) \<Rightarrow>
        (case g v h1 of (Inl e, h2) \<Rightarrow> (Inl e, h2) | (Inr R, h2) \<Rightarrow> k R h2))"
  by (simp split: prod.splits sum.splits)

lemma wrapped_fit_predict:
  assumes bind: "bind_dataset args kwargs = Inr dataset"
  shows "f_call (addmetadata \<lparr>f_name = ''fit_predict'', f_module = md,
                        f_call = Transformer_fit_predict P\<rparr>) self args kwargs h =
     (case call_method P self ''fit'' [dataset] [] h of
        (Inl e, h1) \<Rightarrow> (Inl e, h1)
      | (Inr fitted, h1) \<Rightarrow>
          (case call_method P fitted ''predict'' [dataset] [] h1 of
             (Inl e, h2) \<Rightarrow> (Inl e, h2)
           | (Inr R, h2) \<Rightarrow> stamp ''fit_predict'' self args R h2))"
  by (simp add: addmetadata_def wrapper_def Transformer_fit_predict_def bind
      call_method_core nested_outcome split: prod.splits sum.splits)

lemma wrapped_fit_transform:
  assumes bind: "bind_dataset args kwargs = Inr dataset"
  shows "f_call (addmetadata \<lparr>f_name = ''fit_transform'', f_module = md,
                        f_call = Transformer_fit_transform P\<rparr>) self args kwargs h =
     (case call_method P self ''fit'' [dataset] [] h of
        (Inl e, h1) \<Rightarrow> (Inl e, h1)
      | (Inr fitted, h1) \<Rightarrow>
          (case call_method P fitted ''transform'' [dataset] [] h1 of
             (Inl e, h2) \<Rightarrow> (Inl e, h2)
           | (Inr R, h2) \<Rightarrow> stamp ''fit_transform'' self args R h2))"
  by (simp add: addmetadata_def wrapper_def Transformer_fit_transform_def bind
      call_method_core nested_outcome split: prod.splits sum.splits)

lemma wrapper_entries:
  assumes call: "f_call (addmetadata func) self args kwargs h = (Inr R, h')"
    and ds: "isinstance_Dataset h' R"
  shows "metadata_entry h' R ''transformer'' = Some (VStr (type_name h' self @ ''.'' @ f_name func))"
    and "metadata_entry h' R ''previous'' = Some (VList (filter (isinstance_Dataset h') args))"
proof -
  from call obtain h1 where st: "stamp (f_name func) self args R h1 = (Inr R, h')"
    and iso: "isinstance_Dataset h1 R = isinstance_Dataset h' R"
    by (rule wrapper_returns)
  from ds iso have ds1: "isinstance_Dataset h1 R" by simp
  note f = stamp_Dataset_facts [OF st ds1]
  show "metadata_entry h' R ''transformer'' = Some (VStr (type_name h' self @ ''.'' @ f_name func))"
    by (rule f(4))
  show "metadata_entry h' R ''previous'' = Some (VList (filter (isinstance_Dataset h') args))"
    by (rule f(5))
qed

lemmas ex_eval =
  addmetadata_def wrapper_def stamp_def ex_transform_def ex_relabel_def ex_score_def
  ex_heap_def ex_new_def ex_both_def lookup_def alloc_def

lemmas ex_dispatch =
  call_method_def invoke_def find_method_def BaseClass_def ApplyDecorator_def dunder_def
  Transformer_def Transformer_body_def Transformer_core_def
  Transformer_fit_predict_def Transformer_fit_transform_def bind_dataset_def
  ex_program_def ex_fit_def ex_predict_def ex_plain_def

section \<open>Properties of the decorator\<close>

text \<open>
  Claim C1. Whenever a call of a method wrapped by \<^verbatim>\<open>addmetadata\<close> returns a value
  \<open>R\<close> that is a Dataset instance, \<^verbatim>\<open>R.metadata['transformer']\<close> is the string made of
  the class name of the receiver, a dot, and the \<^verbatim>\<open>__name__\<close> of the function that was
  wrapped. The receiver, the arguments, the function and the store are arbitrary.
\<close>

theorem transformer_entry:
  assumes call: "f_call (addmetadata func) self args kwargs h = (Inr R, h')"
    and ds: "isinstance_Dataset h' R"
  shows "metadata_entry h' R ''transformer'' =
           Some (VStr (type_name h' self @ ''.'' @ f_name func))"
proof -
  from call obtain h1 where st: "stamp (f_name func) self args R h1 = (Inr R, h')"
    and iso: "isinstance_Dataset h1 R = isinstance_Dataset h' R"
    by (rule wrapper_returns)
  from ds iso have "isinstance_Dataset h1 R" by simp
  with st obtain a ob at d d' p where R: "R = VRef a"
    and a: "dataset_at h1 a ob at"
    and h': "h' = rebound h1 a ob at d'"
    and d': "d' = d(''transformer'' \<mapsto> VStr (type_name h' self @ ''.'' @ f_name func),
            ''params'' \<mapsto> p,
            ''previous'' \<mapsto> VList (filter (isinstance_Dataset h') args))"
    by (rule stamp_returns)
  have "metadata_entry h' R ''transformer'' = d' ''transformer''"
    unfolding R by (subst h') (rule metadata_entry_rebound [OF a])
  then show ?thesis by (simp add: d')
qed

text \<open>
  The example transformer's \<^verbatim>\<open>transform\<close>, wrapped and called on the dataset at
  address 2, returns the new dataset at address 4 stamped \<^verbatim>\<open>Reweighing.transform\<close>.
\<close>

theorem transformer_entry_witness:
  "let out = f_call (addmetadata ex_transform) (VRef 0) [VRef 2] [] ex_heap in
     fst out = Inr (VRef 4) \<and> isinstance_Dataset (snd out) (VRef 4) \<and>
     metadata_entry (snd out) (VRef 4) ''transformer'' = Some (VStr ''Reweighing.transform'')"
proof -
  let ?out = "f_call (addmetadata ex_transform) (VRef 0) [VRef 2] [] ex_heap"
  have f: "fst ?out = Inr (VRef 4)"
    by (simp add: ex_eval)
  have call: "?out = (Inr (VRef 4), snd ?out)"
    by (rule prod_eqI) (simp_all only: fst_conv snd_conv f)
  have ds: "isinstance_Dataset (snd ?out) (VRef 4)"
    by (simp add: ex_eval)
  have nm: "type_name (snd ?out) (VRef 0) @ ''.'' @ f_name ex_transform = ''Reweighing.transform''"
    by (simp add: ex_eval)
  have e: "metadata_entry (snd ?out) (VRef 4) ''transformer'' = Some (VStr ''Reweighing.transform'')"
    using transformer_entry [OF call ds] by (simp only: nm)
  show ?thesis
    unfolding Let_def by (intro conjI f ds e)
qed

text \<open>
  Claim C2. Whenever a call of a wrapped method with positional arguments \<open>args\<close>
  returns a Dataset instance \<open>R\<close>, \<^verbatim>\<open>R.metadata['previous']\<close> is the list of those
  elements of \<open>args\<close> that are Dataset instances, in the order of the call. The
  keyword arguments \<open>kwargs\<close> are arbitrary and do not occur in the result.
\<close>

theorem previous_entry:
  assumes call: "f_call (addmetadata func) self args kwargs h = (Inr R, h')"
    and ds: "isinstance_Dataset h' R"
  shows "metadata_entry h' R ''previous'' =
           Some (VList (filter (isinstance_Dataset h') args))"
proof -
  from call obtain h1 where st: "stamp (f_name func) self args R h1 = (Inr R, h')"
    and iso: "isinstance_Dataset h1 R = isinstance_Dataset h' R"
    by (rule wrapper_returns)
  from ds iso have "isinstance_Dataset h1 R" by simp
  with st obtain a ob at d d' p where R: "R = VRef a"
    and a: "dataset_at h1 a ob at"
    and h': "h' = rebound h1 a ob at d'"
    and d': "d' = d(''transformer'' \<mapsto> VStr (type_name h' self @ ''.'' @ f_name func),
            ''params'' \<mapsto> p,
            ''previous'' \<mapsto> VList (filter (isinstance_Dataset h') args))"
    by (rule stamp_returns)
  have "metadata_entry h' R ''previous'' = d' ''previous''"
    unfolding R by (subst h') (rule metadata_entry_rebound [OF a])
  then show ?thesis by (simp add: d')
qed

text \<open>
  The example \<^verbatim>\<open>relabel\<close> called with the dataset and the number 5 by position and
  the same dataset again by keyword: only the positional dataset is listed.
\<close>

theorem previous_entry_witness:
  "let out = f_call (addmetadata ex_relabel) (VRef 0) [VRef 2, VInt 5]
               [(''reference'', VRef 2)] ex_heap in
     fst out = Inr (VRef 2) \<and> isinstance_Dataset (snd out) (VRef 2) \<and>
     metadata_entry (snd out) (VRef 2) ''previous'' = Some (VList [VRef 2])"
proof -
  let ?out = "f_call (addmetadata ex_relabel) (VRef 0) [VRef 2, VInt 5]
                [(''reference'', VRef 2)] ex_heap"
  have f: "fst ?out = Inr (VRef 2)"
    by (simp add: ex_eval)
  have call: "?out = (Inr (VRef 2), snd ?out)"
    by (rule prod_eqI) (simp_all only: fst_conv snd_conv f)
  have ds: "isinstance_Dataset (snd ?out) (VRef 2)"
    by (simp add: ex_eval)
  have fl: "filter (isinstance_Dataset (snd ?out)) [VRef 2, VInt 5] = [VRef 2]"
    by (simp add: ex_eval)
  have e: "metadata_entry (snd ?out) (VRef 2) ''previous'' = Some (VList [VRef 2])"
    using previous_entry [OF call ds] by (simp only: fl)
  show ?thesis
    unfolding Let_def by (intro conjI f ds e)
qed

text \<open>
  Claim C7. When the wrapped function returns a value that is not a Dataset
  instance, the wrapper returns the same value and leaves the same store as the
  function itself: nothing is written anywhere and nothing is raised.
\<close>

theorem non_dataset_passes_through:
  assumes "f_call func self args kwargs h = (Inr R, h1)"
    and "\<not> isinstance_Dataset h1 R"
  shows "f_call (addmetadata func) self args kwargs h = (Inr R, h1)"
  using assms by (simp add: addmetadata_def wrapper_def stamp_not_Dataset)

theorem non_dataset_passes_through_witness:
  "f_call ex_score (VRef 0) [VRef 2] [] ex_heap = (Inr (VInt 1), ex_heap) \<and>
   \<not> isinstance_Dataset ex_heap (VInt 1) \<and>
   f_call (addmetadata ex_score) (VRef 0) [VRef 2] [] ex_heap = (Inr (VInt 1), ex_heap)"
proof -
  have call: "f_call ex_score (VRef 0) [VRef 2] [] ex_heap = (Inr (VInt 1), ex_heap)"
    by (simp add: ex_score_def)
  have nds: "\<not> isinstance_Dataset ex_heap (VInt 1)"
    by simp
  from non_dataset_passes_through [OF call nds] call nds show ?thesis
    by (intro conjI)
qed

text \<open>
  Claim C4. \<^verbatim>\<open>Transformer.__init__\<close> binds \<^verbatim>\<open>self._params\<close> to a new dict that holds
  exactly the keyword arguments of the construction. Whenever a wrapped call
  returns a Dataset instance \<open>R\<close>, \<^verbatim>\<open>R.metadata['params']\<close> is the value of
  \<^verbatim>\<open>self._params\<close> itself: the same reference, hence the same object, and no copy is
  made. Consequently, if \<^verbatim>\<open>_params\<close> at the return of the call is still what the
  constructor bound, the entry refers to the dict of the construction's keyword
  arguments.
\<close>

theorem params_entry:
  assumes init: "Transformer_init self iargs kw h0 = (Inr v, hc)"
    and call: "f_call (addmetadata func) self args kwargs h = (Inr R, h')"
    and ds: "isinstance_Dataset h' R"
  shows "getattr hc self ''_params'' = Inr (VRef (length h0)) \<and>
         lookup h0 (length h0) = None \<and>
         lookup hc (length h0) = Some (Dict (map_of kw)) \<and>
         (\<exists>p. getattr h' self ''_params'' = Inr p \<and> metadata_entry h' R ''params'' = Some p) \<and>
         (getattr h' self ''_params'' = getattr hc self ''_params'' \<and>
          lookup h' (length h0) = lookup hc (length h0) \<longrightarrow>
            metadata_entry h' R ''params'' = Some (VRef (length h0)) \<and>
            lookup h' (length h0) = Some (Dict (map_of kw)))"
proof -
  note i = Transformer_init_returns [OF init]
  from call obtain h1 where st: "stamp (f_name func) self args R h1 = (Inr R, h')"
    and iso: "isinstance_Dataset h1 R = isinstance_Dataset h' R"
    by (rule wrapper_returns)
  from ds iso have ds1: "isinstance_Dataset h1 R" by simp
  note f = stamp_Dataset_facts [OF st ds1]
  from f(2,3) have same: "\<exists>p. getattr h' self ''_params'' = Inr p \<and>
      metadata_entry h' R ''params'' = Some p" by auto
  with i(1,2) show ?thesis by (auto simp: lookup_length)
qed

text \<open>
  Construction with \<^verbatim>\<open>seed=7\<close> in the store \<open>ex_new\<close>, followed by a wrapped call
  that returns the dataset at address 1.
\<close>

theorem params_entry_witness:
  "let hc = snd (Transformer_init (VRef 0) [] [(''seed'', VInt 7)] ex_new);
       out = f_call (addmetadata ex_relabel) (VRef 0) [VRef 1, VInt 5] [] hc in
     fst (Transformer_init (VRef 0) [] [(''seed'', VInt 7)] ex_new) = Inr VNone \<and>
     fst out = Inr (VRef 1) \<and> isinstance_Dataset (snd out) (VRef 1) \<and>
     getattr (snd out) (VRef 0) ''_params'' = getattr hc (VRef 0) ''_params'' \<and>
     lookup (snd out) 3 = lookup hc 3 \<and>
     metadata_entry (snd out) (VRef 1) ''params'' = Some (VRef 3) \<and>
     lookup (snd out) 3 = Some (Dict (map_of [(''seed'', VInt 7)]))"
proof -
  let ?init = "Transformer_init (VRef 0) [] [(''seed'', VInt 7)] ex_new"
  let ?hc = "snd ?init"
  let ?out = "f_call (addmetadata ex_relabel) (VRef 0) [VRef 1, VInt 5] [] ?hc"
  have fi: "fst ?init = Inr VNone"
    by (simp add: Transformer_init_def ex_eval)
  have init: "?init = (Inr VNone, ?hc)"
    by (rule prod_eqI) (simp_all only: fst_conv snd_conv fi)
  have f: "fst ?out = Inr (VRef 1)"
    by (simp add: Transformer_init_def ex_eval)
  have call: "?out = (Inr (VRef 1), snd ?out)"
    by (rule prod_eqI) (simp_all only: fst_conv snd_conv f)
  have ds: "isinstance_Dataset (snd ?out) (VRef 1)"
    by (simp add: Transformer_init_def ex_eval)
  have len: "length ex_new = 3"
    by (simp add: ex_new_def)
  have k1: "getattr (snd ?out) (VRef 0) ''_params'' = getattr ?hc (VRef 0) ''_params''"
    by (simp add: Transformer_init_def ex_eval)
  have k2: "lookup (snd ?out) 3 = lookup ?hc 3"
    by (simp add: Transformer_init_def ex_eval)
  note r = params_entry [OF init call ds, unfolded len]
  from r have imp: "getattr (snd ?out) (VRef 0) ''_params'' = getattr ?hc (VRef 0) ''_params'' \<and>
      lookup (snd ?out) 3 = lookup ?hc 3 \<longrightarrow>
      metadata_entry (snd ?out) (VRef 1) ''params'' = Some (VRef 3) \<and>
      lookup (snd ?out) 3 = Some (Dict (map_of [(''seed'', VInt 7)]))"
    by (elim conjE)
  note e = mp [OF imp conjI [OF k1 k2]]
  show ?thesis
    unfolding Let_def by (intro conjI fi f ds k1 k2 e [THEN conjunct1] e [THEN conjunct2])
qed

text \<open>
  Claim C5. The decorator never writes into a dict that already exists. Let the
  wrapped function end in store \<open>h1\<close>, by returning or by raising, and let the
  wrapped call end in store \<open>h'\<close>. Every dict object of \<open>h1\<close>, the one held by
  the input dataset among them, has in \<open>h'\<close> exactly the entries it has in \<open>h1\<close>:
  the provenance record goes into a copy at a new address, and only the returned
  dataset's attribute is bound to it. So a transformation that does not itself
  write into its input's metadata leaves that dict as it was before the call.
\<close>

theorem input_metadata_not_mutated:
  assumes func: "f_call func self args kwargs h = (r, h1)"
    and wrapped: "f_call (addmetadata func) self args kwargs h = (r', h')"
    and dict: "lookup h1 m = Some (Dict d)"
  shows "lookup h' m = Some (Dict d)"
proof (cases r)
  case (Inl e)
  with func wrapped dict show ?thesis by (simp add: addmetadata_def wrapper_def)
next
  case (Inr R)
  with func wrapped have "stamp (f_name func) self args R h1 = (r', h')"
    by (simp add: addmetadata_def wrapper_def)
  then show ?thesis using dict by (rule stamp_frame)
qed

text \<open>
  The example \<^verbatim>\<open>transform\<close> returns a dataset that shares the metadata dict at
  address 3 with its input; after the wrapped call that dict still holds only
  its one entry.
\<close>

theorem input_metadata_not_mutated_witness:
  "f_call ex_transform (VRef 0) [VRef 2] [] ex_heap =
     (Inr (VRef 4), ex_heap @ [DatasetObj ''Dataset'' [''metadata'' \<mapsto> VRef 3]]) \<and>
   lookup (ex_heap @ [DatasetObj ''Dataset'' [''metadata'' \<mapsto> VRef 3]]) 3 =
     Some (Dict [''source'' \<mapsto> VStr ''raw'']) \<and>
   lookup (snd (f_call (addmetadata ex_transform) (VRef 0) [VRef 2] [] ex_heap)) 3 =
     Some (Dict [''source'' \<mapsto> VStr ''raw''])"
proof -
  let ?h1 = "ex_heap @ [DatasetObj ''Dataset'' [''metadata'' \<mapsto> VRef 3]]"
  let ?out = "f_call (addmetadata ex_transform) (VRef 0) [VRef 2] [] ex_heap"
  have func: "f_call ex_transform (VRef 0) [VRef 2] [] ex_heap = (Inr (VRef 4), ?h1)"
    by (simp add: ex_transform_def ex_heap_def lookup_def)
  have wrapped: "?out = (fst ?out, snd ?out)"
    by simp
  have dict: "lookup ?h1 3 = Some (Dict [''source'' \<mapsto> VStr ''raw''])"
    by (simp add: ex_heap_def lookup_def)
  from input_metadata_not_mutated [OF func wrapped dict] func dict show ?thesis
    by (intro conjI)
qed

text \<open>
  Claim C9. The wrapper carries the \<^verbatim>\<open>__name__\<close> and \<^verbatim>\<open>__module__\<close> of the function it wraps, so a
  function wrapped twice still has its own name, and a dataset returned by the
  twice-wrapped function is stamped with the name of the original function.
  Moreover the metadata of that dataset has the same entries as after the call
  of the once-wrapped function: wrapping again changes no stamped value.
\<close>

theorem rewrapping_keeps_name:
  assumes twice: "f_call (addmetadata (addmetadata func)) self args kwargs h = (Inr R, h2)"
    and ds: "isinstance_Dataset h2 R"
  shows "f_name (addmetadata func) = f_name func \<and>
         f_module (addmetadata func) = f_module func \<and>
         f_name (addmetadata (addmetadata func)) = f_name func \<and>
         metadata_entry h2 R ''transformer'' =
           Some (VStr (type_name h2 self @ ''.'' @ f_name func)) \<and>
         (\<exists>h1. f_call (addmetadata func) self args kwargs h = (Inr R, h1) \<and>
               (\<forall>k. metadata_entry h2 R k = metadata_entry h1 R k))"
proof -
  have n1: "f_name (addmetadata g) = f_name g" for g
    by (simp add: addmetadata_def)
  from twice obtain h1 where once: "f_call (addmetadata func) self args kwargs h = (Inr R, h1)"
    and st2: "stamp (f_name func) self args R h1 = (Inr R, h2)"
    and iso2: "isinstance_Dataset h1 R = isinstance_Dataset h2 R"
    by (rule wrapper_returns) (simp add: n1)
  from once obtain h0 where st1: "stamp (f_name func) self args R h0 = (Inr R, h1)"
    and iso1: "isinstance_Dataset h0 R = isinstance_Dataset h1 R"
    by (rule wrapper_returns)
  from ds iso2 have ds1: "isinstance_Dataset h1 R" by simp
  with iso1 have ds0: "isinstance_Dataset h0 R" by simp
  note f1 = stamp_Dataset_facts [OF st1 ds0]
  note f2 = stamp_Dataset_facts [OF st2 ds1]
  from f1(3) obtain p where p0: "getattr h0 self ''_params'' = Inr p"
    and e1: "metadata_entry h1 R ''params'' = Some p" by blast
  from p0 f1(2) have p1: "getattr h1 self ''_params'' = Inr p" by simp
  with f2(3) have e2: "metadata_entry h2 R ''params'' = Some p" by auto
  have tn: "type_name h2 self = type_name h1 self"
    using st2 p1 by (rule type_name_stamp)
  have "metadata_entry h2 R k = metadata_entry h1 R k" for k
  proof (cases "k \<in> {''transformer'', ''params'', ''previous''}")
    case True
    then show ?thesis
      using f1(4,5) f2(4,5,7) e1 e2 tn by auto
  next
    case False
    then show ?thesis by (rule f2(6))
  qed
  moreover have "f_module (addmetadata func) = f_module func"
    by (simp add: addmetadata_def)
  ultimately show ?thesis
    using once f2(4) n1 by auto
qed

theorem rewrapping_keeps_name_witness:
  "let out = f_call (addmetadata (addmetadata ex_transform)) (VRef 0) [VRef 2] [] ex_heap in
     fst out = Inr (VRef 4) \<and> isinstance_Dataset (snd out) (VRef 4) \<and>
     f_name (addmetadata (addmetadata ex_transform)) = ''transform'' \<and>
     metadata_entry (snd out) (VRef 4) ''transformer'' = Some (VStr ''Reweighing.transform'')"
proof -
  let ?out = "f_call (addmetadata (addmetadata ex_transform)) (VRef 0) [VRef 2] [] ex_heap"
  have f: "fst ?out = Inr (VRef 4)"
    by (simp add: ex_eval)
  have call: "?out = (Inr (VRef 4), snd ?out)"
    by (rule prod_eqI) (simp_all only: fst_conv snd_conv f)
  have ds: "isinstance_Dataset (snd ?out) (VRef 4)"
    by (simp add: ex_eval)
  have nm: "type_name (snd ?out) (VRef 0) @ ''.'' @ f_name ex_transform = ''Reweighing.transform''"
    by (simp add: ex_eval)
  have fn: "f_name ex_transform = ''transform''"
    by (simp add: ex_transform_def)
  note r = rewrapping_keeps_name [OF call ds]
  from r have n: "f_name (addmetadata (addmetadata ex_transform)) = ''transform''"
    by (simp only: fn)
  from r have e: "metadata_entry (snd ?out) (VRef 4) ''transformer'' =
      Some (VStr ''Reweighing.transform'')"
    by (simp only: nm)
  show ?thesis
    unfolding Let_def by (intro conjI f ds n e)
qed

text \<open>
  Claim C10. When the wrapped function returns one of its own arguments \<open>R\<close>, a
  Dataset instance whose \<^verbatim>\<open>metadata\<close> is the dict at address \<open>m\<close>, and the wrapped
  call returns, then: the returned object is \<open>R\<close>; its attribute \<^verbatim>\<open>metadata\<close> is
  bound to a dict at an address that was free before the stamp; that dict holds
  the provenance record and, under every other key, what the old dict holds; the
  entry \<^verbatim>\<open>previous\<close> lists the Dataset arguments by reference and \<open>R\<close> is among
  them; the old dict at \<open>m\<close> has the entries it had.
\<close>

theorem returned_argument_is_restamped:
  assumes func: "f_call func self args kwargs h = (Inr R, h1)"
    and same: "R \<in> set args"
    and ds: "isinstance_Dataset h1 R"
    and old: "getattr h1 R ''metadata'' = Inr (VRef m)"
    and wrapped: "f_call (addmetadata func) self args kwargs h = (Inr R', h')"
  shows "R' = R \<and>
         lookup h1 (length h1) = None \<and>
         getattr h' R ''metadata'' = Inr (VRef (length h1)) \<and>
         metadata_entry h' R ''transformer'' =
           Some (VStr (type_name h' self @ ''.'' @ f_name func)) \<and>
         (\<exists>p. getattr h' self ''_params'' = Inr p \<and> metadata_entry h' R ''params'' = Some p) \<and>
         metadata_entry h' R ''previous'' = Some (VList (filter (isinstance_Dataset h') args)) \<and>
         R \<in> set (filter (isinstance_Dataset h') args) \<and>
         (\<forall>k. k \<notin> {''transformer'', ''params'', ''previous''} \<longrightarrow>
              metadata_entry h' R k = metadata_entry h1 R k) \<and>
         (\<exists>d. lookup h1 m = Some (Dict d)) \<and>
         lookup h' m = lookup h1 m"
proof -
  from func wrapped have st: "stamp (f_name func) self args R h1 = (Inr R', h')"
    by (simp add: addmetadata_def wrapper_def)
  note f = stamp_Dataset_facts [OF st ds]
  from st have R': "R' = R" by (rule stamp_isinstance)
  from st ds obtain a ob at m0 d where R: "R = VRef a"
    and a: "dataset_at h1 a ob at"
    and md: "at ''metadata'' = Some (VRef m0)" and d: "lookup h1 m0 = Some (Dict d)"
    by (rule stamp_returns)
  from old R md have "m = m0" by (simp add: dataset_atD(6) [OF a] del: getattr.simps)
  with d have dm: "lookup h1 m = Some (Dict d)" by simp
  from st dm have keep: "lookup h' m = Some (Dict d)" by (rule stamp_frame)
  from f(2,3) have pe: "\<exists>p. getattr h' self ''_params'' = Inr p \<and>
      metadata_entry h' R ''params'' = Some p" by auto
  from same ds f(7) have mem: "R \<in> set (filter (isinstance_Dataset h') args)" by simp
  from f(6) have rest: "\<forall>k. k \<notin> {''transformer'', ''params'', ''previous''} \<longrightarrow>
      metadata_entry h' R k = metadata_entry h1 R k" by blast
  from keep dm have "(\<exists>d. lookup h1 m = Some (Dict d)) \<and> lookup h' m = lookup h1 m" by simp
  with R' f(1,4,5) pe mem rest show ?thesis by (simp add: lookup_length)
qed

theorem returned_argument_is_restamped_witness:
  "let out = f_call (addmetadata ex_relabel) (VRef 0) [VRef 2, VInt 5] [] ex_heap in
     f_call ex_relabel (VRef 0) [VRef 2, VInt 5] [] ex_heap = (Inr (VRef 2), ex_heap) \<and>
     VRef 2 \<in> set [VRef 2, VInt 5] \<and> isinstance_Dataset ex_heap (VRef 2) \<and>
     getattr ex_heap (VRef 2) ''metadata'' = Inr (VRef 3) \<and>
     fst out = Inr (VRef 2) \<and>
     getattr (snd out) (VRef 2) ''metadata'' = Inr (VRef 4) \<and>
     metadata_entry (snd out) (VRef 2) ''previous'' = Some (VList [VRef 2]) \<and>
     lookup (snd out) 3 = Some (Dict [''source'' \<mapsto> VStr ''raw''])"
proof -
  let ?out = "f_call (addmetadata ex_relabel) (VRef 0) [VRef 2, VInt 5] [] ex_heap"
  have func: "f_call ex_relabel (VRef 0) [VRef 2, VInt 5] [] ex_heap = (Inr (VRef 2), ex_heap)"
    by (simp add: ex_relabel_def)
  have same: "VRef 2 \<in> set [VRef 2, VInt 5]"
    by simp
  have ds: "isinstance_Dataset ex_heap (VRef 2)"
    by (simp add: ex_heap_def lookup_def)
  have old: "getattr ex_heap (VRef 2) ''metadata'' = Inr (VRef 3)"
    by (simp add: ex_heap_def lookup_def)
  have f: "fst ?out = Inr (VRef 2)"
    by (simp add: ex_eval)
  have wrapped: "?out = (Inr (VRef 2), snd ?out)"
    by (rule prod_eqI) (simp_all only: fst_conv snd_conv f)
  have len: "length ex_heap = 4"
    by (simp add: ex_heap_def)
  have fl: "filter (isinstance_Dataset (snd ?out)) [VRef 2, VInt 5] = [VRef 2]"
    by (simp add: ex_eval)
  have d3: "lookup ex_heap 3 = Some (Dict [''source'' \<mapsto> VStr ''raw''])"
    by (simp add: ex_heap_def lookup_def)
  note r = returned_argument_is_restamped [OF func same ds old wrapped]
  from r have g: "getattr (snd ?out) (VRef 2) ''metadata'' = Inr (VRef 4)"
    by (simp only: len)
  from r have pv: "metadata_entry (snd ?out) (VRef 2) ''previous'' = Some (VList [VRef 2])"
    by (simp only: fl)
  from r have "lookup (snd ?out) 3 = lookup ex_heap 3"
    by (elim conjE)
  then have keep: "lookup (snd ?out) 3 = Some (Dict [''source'' \<mapsto> VStr ''raw''])"
    by (simp only: d3)
  show ?thesis
    unfolding Let_def by (intro conjI func same ds old f g pv keep)
qed

section \<open>Properties of the base class\<close>

text \<open>
  Claim C6. On an instance of a subclass that does not define \<^verbatim>\<open>predict\<close>, the call
  \<^verbatim>\<open>predict(dataset)\<close> raises \<^verbatim>\<open>NotImplementedError\<close> with the message that names
  \<^verbatim>\<open>predict\<close> and suggests \<^verbatim>\<open>transform\<close> or \<^verbatim>\<open>fit_predict\<close>, whatever the dataset
  argument is, and leaves the store as it was; likewise \<^verbatim>\<open>transform\<close>, whose message
  suggests \<^verbatim>\<open>predict\<close> or \<^verbatim>\<open>fit_transform\<close>. The call goes through the method lookup
  and the decorator, which passes the exception on.
\<close>

theorem default_predict_transform_raise:
  assumes recv: "lookup h a = Some ob"
    and cls: "transformer_class ob = Some c"
    and bind: "bind_dataset args kwargs = Inr dataset"
  shows "(P c ''predict'' = None \<longrightarrow>
            call_method P (VRef a) ''predict'' args kwargs h =
              (Inl (NotImplementedError
                 '''predict' is not supported for this class. Perhaps you meant 'transform' or 'fit_predict' instead?''),
               h)) \<and>
         (P c ''transform'' = None \<longrightarrow>
            call_method P (VRef a) ''transform'' args kwargs h =
              (Inl (NotImplementedError
                 '''transform' is not supported for this class. Perhaps you meant 'predict' or 'fit_transform' instead?''),
               h))"
proof (intro conjI impI)
  assume "P c ''predict'' = None"
  with recv cls have "call_method P (VRef a) ''predict'' args kwargs h =
      f_call (addmetadata \<lparr>f_name = ''predict'', f_module = ''aiflearn.algorithms.transformer'',
                        f_call = Transformer_predict\<rparr>) (VRef a) args kwargs h"
    by (rule call_inherited) (rule Transformer_predict_entry)
  also have "\<dots> = (Inl (NotImplementedError
      '''predict' is not supported for this class. Perhaps you meant 'transform' or 'fit_predict' instead?''), h)"
    by (rule wrapper_raises) (simp add: Transformer_predict_def bind)
  finally show "call_method P (VRef a) ''predict'' args kwargs h =
      (Inl (NotImplementedError
         '''predict' is not supported for this class. Perhaps you meant 'transform' or 'fit_predict' instead?''), h)" .
next
  assume "P c ''transform'' = None"
  with recv cls have "call_method P (VRef a) ''transform'' args kwargs h =
      f_call (addmetadata \<lparr>f_name = ''transform'', f_module = ''aiflearn.algorithms.transformer'',
                        f_call = Transformer_transform\<rparr>) (VRef a) args kwargs h"
    by (rule call_inherited) (rule Transformer_transform_entry)
  also have "\<dots> = (Inl (NotImplementedError
      '''transform' is not supported for this class. Perhaps you meant 'predict' or 'fit_transform' instead?''), h)"
    by (rule wrapper_raises) (simp add: Transformer_transform_def bind)
  finally show "call_method P (VRef a) ''transform'' args kwargs h =
      (Inl (NotImplementedError
         '''transform' is not supported for this class. Perhaps you meant 'predict' or 'fit_transform' instead?''), h)" .
qed

theorem default_predict_transform_raise_witness:
  "lookup ex_plain 0 = Some (TransformerObj ''Plain'' Map.empty) \<and>
   transformer_class (TransformerObj ''Plain'' Map.empty) = Some ''Plain'' \<and>
   bind_dataset [VRef 1] [] = Inr (VRef 1) \<and>
   ex_program ''Plain'' ''predict'' = None \<and>
   ex_program ''Plain'' ''transform'' = None \<and>
   call_method ex_program (VRef 0) ''predict'' [VRef 1] [] ex_plain =
     (Inl (NotImplementedError
        '''predict' is not supported for this class. Perhaps you meant 'transform' or 'fit_predict' instead?''),
      ex_plain) \<and>
   call_method ex_program (VRef 0) ''transform'' [VRef 1] [] ex_plain =
     (Inl (NotImplementedError
        '''transform' is not supported for this class. Perhaps you meant 'predict' or 'fit_transform' instead?''),
      ex_plain)"
proof -
  have recv: "lookup ex_plain 0 = Some (TransformerObj ''Plain'' Map.empty)"
    by (simp add: ex_plain_def lookup_def)
  have bind: "bind_dataset [VRef 1] [] = Inr (VRef 1)"
    by (simp add: bind_dataset_def)
  have p: "ex_program ''Plain'' ''predict'' = None"
    by (simp add: ex_program_def)
  have t: "ex_program ''Plain'' ''transform'' = None"
    by (simp add: ex_program_def)
  have cls: "transformer_class (TransformerObj ''Plain'' Map.empty) = Some ''Plain''"
    by simp
  note r = default_predict_transform_raise [OF recv cls bind, of ex_program]
  show ?thesis
    by (intro conjI recv cls bind p t mp [OF r [THEN conjunct1] p] mp [OF r [THEN conjunct2] t])
qed

text \<open>
  Claim C8, in the form in which it holds. On an instance of a subclass that does
  not define \<^verbatim>\<open>fit\<close> and is not itself a Dataset instance, the call \<^verbatim>\<open>fit(dataset)\<close>
  returns the receiver itself, the same reference, and the store after the call is
  the store before it: no attribute of the instance, of the dataset or of any other
  object has changed. On every instance of such a subclass, a Dataset instance or
  not, a call of \<^verbatim>\<open>fit\<close> that returns returns the receiver itself.
\<close>

theorem default_fit_returns_self:
  assumes recv: "lookup h a = Some ob"
    and cls: "transformer_class ob = Some c"
    and inherits: "P c ''fit'' = None"
    and bind: "bind_dataset args kwargs = Inr dataset"
  shows "(\<not> is_Dataset_obj ob \<longrightarrow>
            call_method P (VRef a) ''fit'' args kwargs h = (Inr (VRef a), h)) \<and>
         (\<forall>R h'. call_method P (VRef a) ''fit'' args kwargs h = (Inr R, h') \<longrightarrow> R = VRef a)"
proof -
  from recv cls inherits have "call_method P (VRef a) ''fit'' args kwargs h =
      f_call (addmetadata \<lparr>f_name = ''fit'', f_module = ''aiflearn.algorithms.transformer'',
                        f_call = Transformer_fit\<rparr>) (VRef a) args kwargs h"
    by (rule call_inherited) (rule Transformer_fit_entry)
  also have "\<dots> = stamp ''fit'' (VRef a) args (VRef a) h"
    using bind by (simp add: addmetadata_def wrapper_def Transformer_fit_def)
  finally have c: "call_method P (VRef a) ''fit'' args kwargs h =
      stamp ''fit'' (VRef a) args (VRef a) h" .
  show ?thesis
  proof (intro conjI impI allI)
    assume "\<not> is_Dataset_obj ob"
    with recv have "\<not> isinstance_Dataset h (VRef a)" by simp
    then show "call_method P (VRef a) ''fit'' args kwargs h = (Inr (VRef a), h)"
      unfolding c by (rule stamp_not_Dataset)
  next
    fix R h'
    assume "call_method P (VRef a) ''fit'' args kwargs h = (Inr R, h')"
    then have "stamp ''fit'' (VRef a) args (VRef a) h = (Inr R, h')"
      by (simp only: c)
    then show "R = VRef a" by (rule stamp_isinstance(1))
  qed
qed

text \<open>
  The instance of the class \<^verbatim>\<open>Plain\<close>, which is a transformer and not a dataset.
\<close>

theorem default_fit_returns_self_witness:
  "lookup ex_plain 0 = Some (TransformerObj ''Plain'' Map.empty) \<and>
   transformer_class (TransformerObj ''Plain'' Map.empty) = Some ''Plain'' \<and>
   ex_program ''Plain'' ''fit'' = None \<and>
   bind_dataset [VRef 1] [] = Inr (VRef 1) \<and>
   \<not> is_Dataset_obj (TransformerObj ''Plain'' Map.empty) \<and>
   call_method ex_program (VRef 0) ''fit'' [VRef 1] [] ex_plain = (Inr (VRef 0), ex_plain)"
proof -
  have recv: "lookup ex_plain 0 = Some (TransformerObj ''Plain'' Map.empty)"
    by (simp add: ex_plain_def lookup_def)
  have cls: "transformer_class (TransformerObj ''Plain'' Map.empty) = Some ''Plain''"
    by simp
  have inherits: "ex_program ''Plain'' ''fit'' = None"
    by (simp add: ex_program_def)
  have bind: "bind_dataset [VRef 1] [] = Inr (VRef 1)"
    by (simp add: bind_dataset_def)
  have nds: "\<not> is_Dataset_obj (TransformerObj ''Plain'' Map.empty)"
    by simp
  note r = default_fit_returns_self [where P = ex_program, OF recv cls inherits bind]
  show ?thesis
    by (intro conjI recv cls inherits bind nds mp [OF r [THEN conjunct1] nds])
qed

text \<open>
  Claim C8 speaks of every subclass that does not define \<^verbatim>\<open>fit\<close>. The class
  \<^verbatim>\<open>Both(Transformer, Dataset)\<close> of the example defines no method. On its instance at
  address 0 the inherited \<^verbatim>\<open>fit\<close> returns the instance, which is a Dataset
  instance, so the decorator stamps it: its attribute \<^verbatim>\<open>metadata\<close>, bound to the dict
  at address 1 before the call, is bound to a new dict at address 5 after it, and
  that dict carries \<^verbatim>\<open>transformer\<close> = \<^verbatim>\<open>Both.fit\<close>.
\<close>

theorem default_fit_stamps_dataset_receiver_counterexample:
  "transformer_class (BothObj ''Both'' [''metadata'' \<mapsto> VRef 1, ''_params'' \<mapsto> VRef 2]) =
     Some ''Both'' \<and>
   lookup ex_both 0 =
     Some (BothObj ''Both'' [''metadata'' \<mapsto> VRef 1, ''_params'' \<mapsto> VRef 2]) \<and>
   ex_program ''Both'' ''fit'' = None \<and>
   fst (call_method ex_program (VRef 0) ''fit'' [VRef 3] [] ex_both) = Inr (VRef 0) \<and>
   getattr ex_both (VRef 0) ''metadata'' = Inr (VRef 1) \<and>
   getattr (snd (call_method ex_program (VRef 0) ''fit'' [VRef 3] [] ex_both)) (VRef 0)
     ''metadata'' = Inr (VRef 5) \<and>
   metadata_entry (snd (call_method ex_program (VRef 0) ''fit'' [VRef 3] [] ex_both)) (VRef 0)
     ''transformer'' = Some (VStr ''Both.fit'') \<and>
   call_method ex_program (VRef 0) ''fit'' [VRef 3] [] ex_both \<noteq> (Inr (VRef 0), ex_both)"
proof -
  let ?out = "call_method ex_program (VRef 0) ''fit'' [VRef 3] [] ex_both"
  have g: "getattr (snd ?out) (VRef 0) ''metadata'' = Inr (VRef 5)"
    by (simp add: ex_dispatch ex_eval Transformer_fit_def)
  have g0: "getattr ex_both (VRef 0) ''metadata'' = Inr (VRef 1)"
    by (simp add: ex_both_def lookup_def)
  have ne: "?out \<noteq> (Inr (VRef 0), ex_both)"
  proof
    assume "?out = (Inr (VRef 0), ex_both)"
    then have "snd ?out = ex_both" by (simp only: snd_conv)
    with g have "getattr ex_both (VRef 0) ''metadata'' = Inr (VRef 5)" by (simp only:)
    with g0 show False by simp
  qed
  have rest: "transformer_class (BothObj ''Both'' [''metadata'' \<mapsto> VRef 1, ''_params'' \<mapsto> VRef 2]) =
       Some ''Both'' \<and>
     lookup ex_both 0 =
       Some (BothObj ''Both'' [''metadata'' \<mapsto> VRef 1, ''_params'' \<mapsto> VRef 2]) \<and>
     ex_program ''Both'' ''fit'' = None \<and>
     fst ?out = Inr (VRef 0) \<and>
     metadata_entry (snd ?out) (VRef 0) ''transformer'' = Some (VStr ''Both.fit'')"
    by (simp add: ex_dispatch ex_eval Transformer_fit_def metadata_entry_def)
  from rest g g0 ne show ?thesis by (elim conjE) (intro conjI)
qed

text \<open>
  Claim C3, in the form in which it holds. On an instance of a subclass that
  inherits \<^verbatim>\<open>fit_predict\<close>,
  the call \<^verbatim>\<open>fit_predict(dataset)\<close> calls \<^verbatim>\<open>fit(dataset)\<close> on the receiver and then
  \<^verbatim>\<open>predict(dataset)\<close> on what \<^verbatim>\<open>fit\<close> returned; an exception of either step is the
  outcome of the whole call, with the store of that step. What \<^verbatim>\<open>predict\<close> returns
  is then stamped once more, because \<^verbatim>\<open>fit_predict\<close> is itself a decorated method:
  a returned Dataset instance carries \<^verbatim>\<open>transformer\<close> =
  \<^verbatim>\<open><class of the receiver>.fit_predict\<close> and as \<^verbatim>\<open>previous\<close> the Dataset instances among
  the positional arguments of the \<^verbatim>\<open>fit_predict\<close> call. Likewise \<^verbatim>\<open>fit_transform\<close> with
  \<^verbatim>\<open>transform\<close>.
\<close>

theorem fit_predict_composition:
  assumes recv: "lookup h a = Some ob"
    and cls: "transformer_class ob = Some c"
    and bind: "bind_dataset args kwargs = Inr dataset"
  shows "(P c ''fit_predict'' = None \<longrightarrow>
           call_method P (VRef a) ''fit_predict'' args kwargs h =
             (case call_method P (VRef a) ''fit'' [dataset] [] h of
                (Inl e, h1) \<Rightarrow> (Inl e, h1)
              | (Inr fitted, h1) \<Rightarrow>
                  (case call_method P fitted ''predict'' [dataset] [] h1 of
                     (Inl e, h2) \<Rightarrow> (Inl e, h2)
                   | (Inr R, h2) \<Rightarrow> stamp ''fit_predict'' (VRef a) args R h2)) \<and>
           (\<forall>R h'. call_method P (VRef a) ''fit_predict'' args kwargs h = (Inr R, h') \<and>
                    isinstance_Dataset h' R \<longrightarrow>
                    metadata_entry h' R ''transformer'' =
                      Some (VStr (type_name h' (VRef a) @ ''.fit_predict'')) \<and>
                    metadata_entry h' R ''previous'' =
                      Some (VList (filter (isinstance_Dataset h') args)))) \<and>
         (P c ''fit_transform'' = None \<longrightarrow>
           call_method P (VRef a) ''fit_transform'' args kwargs h =
             (case call_method P (VRef a) ''fit'' [dataset] [] h of
                (Inl e, h1) \<Rightarrow> (Inl e, h1)
              | (Inr fitted, h1) \<Rightarrow>
                  (case call_method P fitted ''transform'' [dataset] [] h1 of
                     (Inl e, h2) \<Rightarrow> (Inl e, h2)
                   | (Inr R, h2) \<Rightarrow> stamp ''fit_transform'' (VRef a) args R h2)) \<and>
           (\<forall>R h'. call_method P (VRef a) ''fit_transform'' args kwargs h = (Inr R, h') \<and>
                    isinstance_Dataset h' R \<longrightarrow>
                    metadata_entry h' R ''transformer'' =
                      Some (VStr (type_name h' (VRef a) @ ''.fit_transform'')) \<and>
                    metadata_entry h' R ''previous'' =
                      Some (VList (filter (isinstance_Dataset h') args))))"
proof (intro conjI impI allI)
  let ?fp = "\<lparr>f_name = ''fit_predict'', f_module = ''aiflearn.algorithms.transformer'',
              f_call = Transformer_fit_predict P\<rparr>"
  assume none: "P c ''fit_predict'' = None"
  from recv cls none have c: "call_method P (VRef a) ''fit_predict'' args kwargs h =
      f_call (addmetadata ?fp) (VRef a) args kwargs h"
    by (rule call_inherited) (rule Transformer_fit_predict_entry)
  show "call_method P (VRef a) ''fit_predict'' args kwargs h =
             (case call_method P (VRef a) ''fit'' [dataset] [] h of
                (Inl e, h1) \<Rightarrow> (Inl e, h1)
              | (Inr fitted, h1) \<Rightarrow>
                  (case call_method P fitted ''predict'' [dataset] [] h1 of
                     (Inl e, h2) \<Rightarrow> (Inl e, h2)
                   | (Inr R, h2) \<Rightarrow> stamp ''fit_predict'' (VRef a) args R h2))"
    unfolding c by (rule wrapped_fit_predict [OF bind])
  fix R h'
  assume "call_method P (VRef a) ''fit_predict'' args kwargs h = (Inr R, h') \<and>
      isinstance_Dataset h' R"
  then have w: "f_call (addmetadata ?fp) (VRef a) args kwargs h = (Inr R, h')"
    and ds: "isinstance_Dataset h' R"
    by (simp_all add: c)
  from wrapper_entries [OF w ds]
  show "metadata_entry h' R ''transformer'' =
      Some (VStr (type_name h' (VRef a) @ ''.fit_predict''))"
    and "metadata_entry h' R ''previous'' = Some (VList (filter (isinstance_Dataset h') args))"
    by simp_all
next
  let ?ft = "\<lparr>f_name = ''fit_transform'', f_module = ''aiflearn.algorithms.transformer'',
              f_call = Transformer_fit_transform P\<rparr>"
  assume none: "P c ''fit_transform'' = None"
  from recv cls none have c: "call_method P (VRef a) ''fit_transform'' args kwargs h =
      f_call (addmetadata ?ft) (VRef a) args kwargs h"
    by (rule call_inherited) (rule Transformer_fit_transform_entry)
  show "call_method P (VRef a) ''fit_transform'' args kwargs h =
             (case call_method P (VRef a) ''fit'' [dataset] [] h of
                (Inl e, h1) \<Rightarrow> (Inl e, h1)
              | (Inr fitted, h1) \<Rightarrow>
                  (case call_method P fitted ''transform'' [dataset] [] h1 of
                     (Inl e, h2) \<Rightarrow> (Inl e, h2)
                   | (Inr R, h2) \<Rightarrow> stamp ''fit_transform'' (VRef a) args R h2))"
    unfolding c by (rule wrapped_fit_transform [OF bind])
  fix R h'
  assume "call_method P (VRef a) ''fit_transform'' args kwargs h = (Inr R, h') \<and>
      isinstance_Dataset h' R"
  then have w: "f_call (addmetadata ?ft) (VRef a) args kwargs h = (Inr R, h')"
    and ds: "isinstance_Dataset h' R"
    by (simp_all add: c)
  from wrapper_entries [OF w ds]
  show "metadata_entry h' R ''transformer'' =
      Some (VStr (type_name h' (VRef a) @ ''.fit_transform''))"
    and "metadata_entry h' R ''previous'' = Some (VList (filter (isinstance_Dataset h') args))"
    by simp_all
qed

theorem fit_predict_composition_witness:
  "let out = call_method ex_program (VRef 0) ''fit_predict'' [VRef 2] [] ex_heap in
     lookup ex_heap 0 = Some (TransformerObj ''Reweighing'' [''_params'' \<mapsto> VRef 1]) \<and>
     transformer_class (TransformerObj ''Reweighing'' [''_params'' \<mapsto> VRef 1]) =
       Some ''Reweighing'' \<and>
     bind_dataset [VRef 2] [] = Inr (VRef 2) \<and>
     ex_program ''Reweighing'' ''fit_predict'' = None \<and>
     fst out = Inr (VRef 4) \<and> isinstance_Dataset (snd out) (VRef 4) \<and>
     metadata_entry (snd out) (VRef 4) ''transformer'' = Some (VStr ''Reweighing.fit_predict'') \<and>
     metadata_entry (snd out) (VRef 4) ''previous'' = Some (VList [VRef 2])"
proof -
  let ?out = "call_method ex_program (VRef 0) ''fit_predict'' [VRef 2] [] ex_heap"
  have recv: "lookup ex_heap 0 = Some (TransformerObj ''Reweighing'' [''_params'' \<mapsto> VRef 1])"
    by (simp add: ex_heap_def lookup_def)
  have bind: "bind_dataset [VRef 2] [] = Inr (VRef 2)"
    by (simp add: bind_dataset_def)
  have none: "ex_program ''Reweighing'' ''fit_predict'' = None"
    by (simp add: ex_program_def)
  have f: "fst ?out = Inr (VRef 4)"
    by (simp add: ex_dispatch ex_eval)
  have call: "?out = (Inr (VRef 4), snd ?out)"
    by (rule prod_eqI) (simp_all only: fst_conv snd_conv f)
  have ds: "isinstance_Dataset (snd ?out) (VRef 4)"
    by (simp add: ex_dispatch ex_eval)
  have nm: "type_name (snd ?out) (VRef 0) @ ''.fit_predict'' = ''Reweighing.fit_predict''"
    by (simp add: ex_dispatch ex_eval)
  have fl: "filter (isinstance_Dataset (snd ?out)) [VRef 2] = [VRef 2]"
    by (simp add: ex_dispatch ex_eval)
  have cls: "transformer_class (TransformerObj ''Reweighing'' [''_params'' \<mapsto> VRef 1]) =
      Some ''Reweighing''"
    by simp
  note r = fit_predict_composition [OF recv cls bind, of ex_program, THEN conjunct1, THEN mp,
      OF none, THEN conjunct2, THEN spec, THEN spec, THEN mp, OF conjI [OF call ds]]
  note e1 = r [THEN conjunct1, unfolded nm]
  note e2 = r [THEN conjunct2, unfolded fl]
  show ?thesis
    unfolding Let_def by (intro conjI recv cls bind none f ds e1 e2)
qed

text \<open>
  Claim C3 also says that the provenance of the dataset returned by
  \<^verbatim>\<open>fit_predict\<close> names the \<^verbatim>\<open>predict\<close> method; it does not. In the example program
  the class
  \<^verbatim>\<open>Reweighing\<close> has its own \<^verbatim>\<open>fit\<close> and \<^verbatim>\<open>predict\<close>. Calling \<^verbatim>\<open>fit\<close> and then
  \<^verbatim>\<open>predict\<close> returns the dataset at address 4 stamped \<^verbatim>\<open>Reweighing.predict\<close>; calling
  \<^verbatim>\<open>fit_predict\<close> returns the dataset at address 4 stamped \<^verbatim>\<open>Reweighing.fit_predict\<close>.
\<close>

theorem fit_predict_names_predict_counterexample:
  "ex_program ''Reweighing'' ''fit'' = Some ex_fit \<and>
   ex_program ''Reweighing'' ''predict'' = Some ex_predict \<and>
   fst (call_method ex_program (VRef 0) ''fit'' [VRef 2] [] ex_heap) = Inr (VRef 0) \<and>
   fst (call_method ex_program (VRef 0) ''predict'' [VRef 2] []
          (snd (call_method ex_program (VRef 0) ''fit'' [VRef 2] [] ex_heap))) = Inr (VRef 4) \<and>
   metadata_entry
     (snd (call_method ex_program (VRef 0) ''predict'' [VRef 2] []
        (snd (call_method ex_program (VRef 0) ''fit'' [VRef 2] [] ex_heap))))
     (VRef 4) ''transformer'' = Some (VStr ''Reweighing.predict'') \<and>
   fst (call_method ex_program (VRef 0) ''fit_predict'' [VRef 2] [] ex_heap) = Inr (VRef 4) \<and>
   metadata_entry (snd (call_method ex_program (VRef 0) ''fit_predict'' [VRef 2] [] ex_heap))
     (VRef 4) ''transformer'' = Some (VStr ''Reweighing.fit_predict'') \<and>
   metadata_entry (snd (call_method ex_program (VRef 0) ''fit_predict'' [VRef 2] [] ex_heap))
     (VRef 4) ''transformer'' \<noteq> Some (VStr ''Reweighing.predict'')"
  by (simp add: ex_dispatch ex_eval metadata_entry_def)

end
